theory Spec2Isabelle
  imports Complex_Main "HOL-Library.Word"
begin

unbundle bit_operations_syntax

section \<open>Conventions of the embedding\<close>

text \<open>
  The C sources are \<^verbatim>\<open>render3d.c\<close> (the renderer and the mesh builders),
  \<^verbatim>\<open>render3d.h\<close>, \<^verbatim>\<open>ssd1306.c\<close> (the display driver) and
  \<^verbatim>\<open>obj_loader.c\<close>.

  \<^item> C \<^verbatim>\<open>float\<close> is modelled by \<open>real\<close>: rounding, infinities and NaN are not
    represented; \<^verbatim>\<open>sqrtf\<close>, \<^verbatim>\<open>sinf\<close>, \<^verbatim>\<open>cosf\<close> are the real functions and
    \<^verbatim>\<open>M_PI\<close> is \<open>pi\<close>.
  \<^item> C \<^verbatim>\<open>int\<close> is a 32-bit word with wrap-around in \<^verbatim>\<open>render3d_draw_line\<close>, whose
    arithmetic can overflow on its arguments; elsewhere (loop counters, pixel indices,
    counts bounded by the data) it is modelled by \<open>int\<close>. \<^verbatim>\<open>uint8_t\<close> and
    \<^verbatim>\<open>uint16_t\<close> are words.
  \<^item> An array behind a pointer is a list (mesh arrays) or a store from index to value
    (the depth buffer and the driver's frame buffer).
  \<^item> A pointer that may be \<^verbatim>\<open>NULL\<close> is an \<open>option\<close>.
  \<^item> The build configuration is the header's default: \<^verbatim>\<open>DISPLAY_COLOR_MODE 0\<close>
    (monochrome) and \<^verbatim>\<open>SHADING_MODE 1\<close> (dithered).
\<close>

type_synonym u8 = "8 word"
type_synonym u16 = "16 word"

text \<open>The cast \<^verbatim>\<open>(int)f\<close> of a float truncates towards zero.\<close>

definition c_int_of_float :: "real \<Rightarrow> int" where
  "c_int_of_float f = (if 0 \<le> f then \<lfloor>f\<rfloor> else \<lceil>f\<rceil>)"

text \<open>The same cast where the value is passed on as a 32-bit \<^verbatim>\<open>int\<close> (to
  \<^verbatim>\<open>render3d_draw_line\<close>). A value outside the range of \<^verbatim>\<open>int\<close> is undefined
  behaviour in C; the model reduces it modulo \<open>2^32\<close>.\<close>

definition c_i32_of_float :: "real \<Rightarrow> 32 word" where
  "c_i32_of_float f = word_of_int (c_int_of_float f)"

section \<open>The SSD1306 driver (ssd1306.c)\<close>

definition SSD1306_WIDTH :: int where
  "SSD1306_WIDTH = 128"

definition SSD1306_HEIGHT :: int where
  "SSD1306_HEIGHT = 64"

text \<open>\<^verbatim>\<open>static uint8_t frame_buffer[SSD1306_WIDTH * SSD1306_HEIGHT / 8]\<close>, as a store
  from byte index to byte.\<close>

type_synonym frame_buffer = "int \<Rightarrow> u8"

definition ssd1306_clear :: "frame_buffer" where
  "ssd1306_clear = (\<lambda>i. 0)"

definition ssd1306_set_pixel :: "int \<Rightarrow> int \<Rightarrow> bool \<Rightarrow> frame_buffer \<Rightarrow> frame_buffer" where
  "ssd1306_set_pixel px py on fb =
     (if px < 0 \<or> px \<ge> SSD1306_WIDTH \<or> py < 0 \<or> py \<ge> SSD1306_HEIGHT then fb
      else
        let page = py div 8;
            bit = py mod 8;
            idx = page * SSD1306_WIDTH + px
        in if on then fb(idx := fb idx OR push_bit (nat bit) 1)
           else fb(idx := fb idx AND NOT (push_bit (nat bit) 1)))"

definition ssd1306_get_pixel :: "int \<Rightarrow> int \<Rightarrow> frame_buffer \<Rightarrow> bool" where
  "ssd1306_get_pixel px py fb =
     (if px < 0 \<or> px \<ge> SSD1306_WIDTH \<or> py < 0 \<or> py \<ge> SSD1306_HEIGHT then False
      else
        let page = py div 8;
            bit = py mod 8;
            idx = page * SSD1306_WIDTH + px
        in (fb idx AND push_bit (nat bit) 1) \<noteq> 0)"

section \<open>Ordered dithering (render3d.c)\<close>

definition DITHER_BAYER4 :: "u8 list list" where
  "DITHER_BAYER4 =
     [[ 0,  8,  2, 10],
      [12,  4, 14,  6],
      [ 3, 11,  1,  9],
      [15,  7, 13,  5]]"

definition dither_pixel :: "int \<Rightarrow> int \<Rightarrow> real \<Rightarrow> bool" where
  "dither_pixel px py brightness =
     (if brightness \<le> 0 then False
      else if brightness \<ge> 1 then True
      else
        let threshold = uint (DITHER_BAYER4 ! nat (py AND 3) ! nat (px AND 3))
        in brightness * 16 > real_of_int threshold)"

text \<open>
  \<^verbatim>\<open>render3d_draw_line\<close>. Its \<^verbatim>\<open>int\<close> variables are 32-bit words: the sums,
  differences and the product \<^verbatim>\<open>2 * err\<close> wrap around, and the comparisons read the
  words as signed. \<^verbatim>\<open>abs\<close> is \<open>c_abs\<close>.
\<close>

type_synonym i32 = "32 word"

definition c_abs :: "i32 \<Rightarrow> i32" where
  "c_abs a = (if sint a < 0 then - a else a)"

text \<open>
  The Bresenham loop \<^verbatim>\<open>while (1) { ... }\<close>. The first argument bounds the number of
  iterations the model may run; the result is \<open>None\<close> when the loop has not reached its
  \<^verbatim>\<open>break\<close> within that many iterations.
\<close>

fun line_loop ::
  "nat \<Rightarrow> i32 \<Rightarrow> i32 \<Rightarrow> i32 \<Rightarrow> i32 \<Rightarrow> i32 \<Rightarrow> i32 \<Rightarrow> bool \<Rightarrow> i32 \<Rightarrow> i32 \<Rightarrow> i32 \<Rightarrow>
   frame_buffer \<Rightarrow> frame_buffer option" where
  "line_loop 0 x1 y1 dx dy sx sy on x0 y0 err fb = None"
| "line_loop (Suc n) x1 y1 dx dy sx sy on x0 y0 err fb =
     (let fb1 = (if sint x0 \<ge> 0 \<and> sint x0 < SSD1306_WIDTH \<and>
                    sint y0 \<ge> 0 \<and> sint y0 < SSD1306_HEIGHT
                 then ssd1306_set_pixel (sint x0) (sint y0) on fb else fb)
      in if x0 = x1 \<and> y0 = y1 then Some fb1
         else
           let e2 = 2 * err;
               err1 = (if sint e2 > sint (- dy) then err - dy else err);
               x0' = (if sint e2 > sint (- dy) then x0 + sx else x0);
               err2 = (if sint e2 < sint dx then err1 + dx else err1);
               y0' = (if sint e2 < sint dx then y0 + sy else y0)
           in line_loop n x1 y1 dx dy sx sy on x0' y0' err2 fb1)"

definition render3d_draw_line ::
  "nat \<Rightarrow> i32 \<Rightarrow> i32 \<Rightarrow> i32 \<Rightarrow> i32 \<Rightarrow> bool \<Rightarrow> frame_buffer \<Rightarrow> frame_buffer option" where
  "render3d_draw_line fuel x0 y0 x1 y1 on fb =
     (let dx = c_abs (x1 - x0);
          dy = c_abs (y1 - y0);
          sx = (if sint x0 < sint x1 then 1 else - 1);
          sy = (if sint y0 < sint y1 then 1 else - 1);
          err = dx - dy
      in line_loop fuel x1 y1 dx dy sx sy on x0 y0 err fb)"

section \<open>Vectors (render3d.c)\<close>

record vec3 =
  vx :: real
  vy :: real
  vz :: real

definition vec3_create :: "real \<Rightarrow> real \<Rightarrow> real \<Rightarrow> vec3" where
  "vec3_create a b c = \<lparr>vx = a, vy = b, vz = c\<rparr>"

definition vec3_add :: "vec3 \<Rightarrow> vec3 \<Rightarrow> vec3" where
  "vec3_add a b = \<lparr>vx = vx a + vx b, vy = vy a + vy b, vz = vz a + vz b\<rparr>"

definition vec3_sub :: "vec3 \<Rightarrow> vec3 \<Rightarrow> vec3" where
  "vec3_sub a b = \<lparr>vx = vx a - vx b, vy = vy a - vy b, vz = vz a - vz b\<rparr>"

definition vec3_mul :: "vec3 \<Rightarrow> real \<Rightarrow> vec3" where
  "vec3_mul v s = \<lparr>vx = vx v * s, vy = vy v * s, vz = vz v * s\<rparr>"

definition vec3_cross :: "vec3 \<Rightarrow> vec3 \<Rightarrow> vec3" where
  "vec3_cross a b =
     \<lparr>vx = vy a * vz b - vz a * vy b,
      vy = vz a * vx b - vx a * vz b,
      vz = vx a * vy b - vy a * vx b\<rparr>"

definition vec3_dot :: "vec3 \<Rightarrow> vec3 \<Rightarrow> real" where
  "vec3_dot a b = vx a * vx b + vy a * vy b + vz a * vz b"

definition vec3_length :: "vec3 \<Rightarrow> real" where
  "vec3_length v = sqrt (vx v * vx v + vy v * vy v + vz v * vz v)"

definition vec3_normalize :: "vec3 \<Rightarrow> vec3" where
  "vec3_normalize v =
     (let len = vec3_length v
      in if len < 1 / 10000 then \<lparr>vx = 0, vy = 0, vz = 0\<rparr> else vec3_mul v (1 / len))"

section \<open>Matrices (render3d.c)\<close>

text \<open>\<^verbatim>\<open>float m[4][4]\<close>: row, then column.\<close>

type_synonym mat4 = "nat \<Rightarrow> nat \<Rightarrow> real"

definition mat4_zero :: mat4 where
  "mat4_zero = (\<lambda>i j. 0)"

definition mat4_set :: "mat4 \<Rightarrow> nat \<Rightarrow> nat \<Rightarrow> real \<Rightarrow> mat4" where
  "mat4_set a i j v = a(i := (a i)(j := v))"

definition mat4_identity :: mat4 where
  "mat4_identity = mat4_set (mat4_set (mat4_set (mat4_set mat4_zero 3 3 1) 2 2 1) 1 1 1) 0 0 1"

definition mat4_multiply :: "mat4 \<Rightarrow> mat4 \<Rightarrow> mat4" where
  "mat4_multiply a b =
     (\<lambda>i j. if i < 4 \<and> j < 4 then fold (\<lambda>k acc. acc + a i k * b k j) [0, 1, 2, 3] 0 else 0)"

definition DEG_TO_RAD :: "real \<Rightarrow> real" where
  "DEG_TO_RAD d = d * pi / 180"

definition mat4_translate :: "real \<Rightarrow> real \<Rightarrow> real \<Rightarrow> mat4" where
  "mat4_translate tx ty tz = mat4_set (mat4_set (mat4_set mat4_identity 0 3 tx) 1 3 ty) 2 3 tz"

definition mat4_rotate_x :: "real \<Rightarrow> mat4" where
  "mat4_rotate_x angle_deg =
     (let rad = DEG_TO_RAD angle_deg; c = cos rad; s = sin rad
      in mat4_set (mat4_set (mat4_set (mat4_set mat4_identity 1 1 c) 1 2 (- s)) 2 1 s) 2 2 c)"

definition mat4_rotate_y :: "real \<Rightarrow> mat4" where
  "mat4_rotate_y angle_deg =
     (let rad = DEG_TO_RAD angle_deg; c = cos rad; s = sin rad
      in mat4_set (mat4_set (mat4_set (mat4_set mat4_identity 0 0 c) 0 2 s) 2 0 (- s)) 2 2 c)"

definition mat4_rotate_z :: "real \<Rightarrow> mat4" where
  "mat4_rotate_z angle_deg =
     (let rad = DEG_TO_RAD angle_deg; c = cos rad; s = sin rad
      in mat4_set (mat4_set (mat4_set (mat4_set mat4_identity 0 0 c) 0 1 (- s)) 1 0 s) 1 1 c)"

definition mat4_scale :: "real \<Rightarrow> real \<Rightarrow> real \<Rightarrow> mat4" where
  "mat4_scale sx sy sz = mat4_set (mat4_set (mat4_set mat4_identity 0 0 sx) 1 1 sy) 2 2 sz"

definition mat4_transform_point :: "mat4 \<Rightarrow> vec3 \<Rightarrow> vec3" where
  "mat4_transform_point a p =
     (let w0 = a 3 0 * vx p + a 3 1 * vy p + a 3 2 * vz p + a 3 3;
          w = (if \<bar>w0\<bar> < 1 / 10000 then 1 / 10000 else w0)
      in \<lparr>vx = (a 0 0 * vx p + a 0 1 * vy p + a 0 2 * vz p + a 0 3) / w,
          vy = (a 1 0 * vx p + a 1 1 * vy p + a 1 2 * vz p + a 1 3) / w,
          vz = (a 2 0 * vx p + a 2 1 * vy p + a 2 2 * vz p + a 2 3) / w\<rparr>)"

section \<open>Data model (render3d.h)\<close>

record color =
  color_r :: u8
  color_g :: u8
  color_b :: u8

text \<open>\<^verbatim>\<open>face_t\<close>: the three vertex indices \<^verbatim>\<open>v[0..2]\<close> and the flat colour. The
  normal indices \<^verbatim>\<open>n[3]\<close> are never read or written by the code and are left out.\<close>

record face =
  face_v0 :: u16
  face_v1 :: u16
  face_v2 :: u16
  face_color :: color

record mesh =
  vertices :: "vec3 list"
  normals :: "vec3 list"
  faces :: "face list"
  vertex_count :: u16
  normal_count :: u16
  face_count :: u16
  position :: vec3
  rotation :: vec3
  scale :: vec3

record camera =
  cam_position :: vec3
  cam_target :: vec3
  cam_up :: vec3
  cam_fov :: real
  cam_near_plane :: real
  cam_far_plane :: real

record light =
  direction :: vec3
  intensity :: real
  ambient :: real

text \<open>\<^verbatim>\<open>render_ctx_t\<close>. The \<^verbatim>\<open>framebuffer\<close> and \<^verbatim>\<open>colorbuffer\<close> pointers stay
  \<^verbatim>\<open>NULL\<close> in the monochrome build and are left out; the depth buffer is a store from
  index to depth.\<close>

record render_ctx =
  ctx_camera :: camera
  ctx_light :: light
  view_matrix :: mat4
  proj_matrix :: mat4
  zbuffer :: "int \<Rightarrow> real"
  width :: int
  height :: int

text \<open>The renderer's state: the context behind \<^verbatim>\<open>ctx\<close> and the driver's frame buffer.\<close>

type_synonym gfx = "render_ctx \<times> frame_buffer"

text \<open>Array reads \<^verbatim>\<open>a[i]\<close>. A read beyond the list is undefined behaviour in C; the
  model returns the zero vector there.\<close>

definition vertex_at :: "vec3 list \<Rightarrow> nat \<Rightarrow> vec3" where
  "vertex_at vs i = (if i < length vs then vs ! i else \<lparr>vx = 0, vy = 0, vz = 0\<rparr>)"

section \<open>Rendering core (render3d.c)\<close>

definition SHADING_MODE :: nat where
  "SHADING_MODE = 1"

definition CLEAR_DEPTH :: real where
  "CLEAR_DEPTH = 1000"

text \<open>\<^verbatim>\<open>render3d_clear\<close>: every depth cell below \<^verbatim>\<open>width * height\<close> is set to 1000, and
  the driver's frame buffer is cleared.\<close>

definition render3d_clear :: "gfx \<Rightarrow> gfx" where
  "render3d_clear s =
     (let ctx = fst s
      in (ctx\<lparr>zbuffer := fold (\<lambda>i zb. zb(i := CLEAR_DEPTH)) [0 .. width ctx * height ctx - 1]
                              (zbuffer ctx)\<rparr>,
          ssd1306_clear))"

definition render3d_set_light :: "render_ctx \<Rightarrow> light \<Rightarrow> render_ctx" where
  "render3d_set_light ctx l = ctx\<lparr>ctx_light := l\<lparr>direction := vec3_normalize (direction l)\<rparr>\<rparr>"

definition project_point :: "render_ctx \<Rightarrow> vec3 \<Rightarrow> mat4 \<Rightarrow> vec3" where
  "project_point ctx p mvp =
     (let clip = mat4_transform_point mvp p;
          sx = (vx clip + 1) * (1 / 2) * real_of_int (width ctx);
          sy = (1 - vy clip) * (1 / 2) * real_of_int (height ctx)
      in vec3_create sx sy (vz clip))"

definition calculate_face_normal :: "vec3 \<Rightarrow> vec3 \<Rightarrow> vec3 \<Rightarrow> vec3" where
  "calculate_face_normal v0 v1 v2 =
     (let edge1 = vec3_sub v1 v0;
          edge2 = vec3_sub v2 v0
      in vec3_normalize (vec3_cross edge1 edge2))"

text \<open>The pixel decision of the monochrome build inside \<^verbatim>\<open>draw_scanline\<close>.\<close>

definition mono_pixel :: "int \<Rightarrow> int \<Rightarrow> real \<Rightarrow> bool" where
  "mono_pixel px py brightness =
     (if SHADING_MODE = 1 then dither_pixel px py brightness else brightness > 1 / 2)"

text \<open>The loop \<^verbatim>\<open>for (int x = ix1; x <= ix2; x++)\<close> of \<^verbatim>\<open>draw_scanline\<close>, with the running
  depth \<^verbatim>\<open>z\<close>.\<close>

function scanline_loop :: "int \<Rightarrow> int \<Rightarrow> real \<Rightarrow> real \<Rightarrow> int \<Rightarrow> real \<Rightarrow> gfx \<Rightarrow> gfx" where
  "scanline_loop py ix2 dz brightness px z s =
     (if px \<le> ix2 then
        let ctx = fst s;
            idx = py * width ctx + px;
            s' = (if z < zbuffer ctx idx
                  then (ctx\<lparr>zbuffer := (zbuffer ctx)(idx := z)\<rparr>,
                        ssd1306_set_pixel px py (mono_pixel px py brightness) (snd s))
                  else s)
        in scanline_loop py ix2 dz brightness (px + 1) (z + dz) s'
      else s)"
  by pat_completeness auto
termination
  by (relation "measure (\<lambda>(py, ix2, dz, brightness, px, z, s). nat (ix2 + 1 - px))") auto

declare scanline_loop.simps [simp del]

definition draw_scanline ::
  "int \<Rightarrow> real \<Rightarrow> real \<Rightarrow> real \<Rightarrow> real \<Rightarrow> real \<Rightarrow> color \<Rightarrow> gfx \<Rightarrow> gfx" where
  "draw_scanline py x1 x2 z1 z2 brightness base_color s =
     (let ctx = fst s
      in if py < 0 \<or> py \<ge> height ctx then s
         else
           let (xa, xb, za, zb) = (if x1 > x2 then (x2, x1, z2, z1) else (x1, x2, z1, z2));
               ix1 = c_int_of_float xa;
               ix2 = c_int_of_float xb
           in if ix2 < 0 \<or> ix1 \<ge> width ctx then s
              else
                let dx = xb - xa;
                    dz = (if dx > 1 / 1000 then (zb - za) / dx else 0);
                    z = (if ix1 < 0 then za + dz * (0 - xa) else za);
                    ix1' = (if ix1 < 0 then 0 else ix1);
                    ix2' = (if ix2 \<ge> width ctx then width ctx - 1 else ix2)
                in scanline_loop py ix2' dz brightness ix1' z s)"

text \<open>The loop \<^verbatim>\<open>for (int y = iy0; y <= iy2; y++)\<close> of \<^verbatim>\<open>draw_triangle_flat\<close>.\<close>

function triangle_loop ::
  "vec3 \<Rightarrow> vec3 \<Rightarrow> vec3 \<Rightarrow> real \<Rightarrow> real \<Rightarrow> real \<Rightarrow> real \<Rightarrow> color \<Rightarrow> int \<Rightarrow> int \<Rightarrow> gfx \<Rightarrow> gfx" where
  "triangle_loop p0 p1 p2 inv_dy_total inv_dy_upper inv_dy_lower brightness base_color iy2 py s =
     (if py \<le> iy2 then
        let fy = real_of_int py + 1 / 2;
            t_long = (fy - vy p0) * inv_dy_total;
            x_long = vx p0 + (vx p2 - vx p0) * t_long;
            z_long = vz p0 + (vz p2 - vz p0) * t_long;
            (x_short, z_short) =
              (if fy < vy p1 then
                 let t_short = (fy - vy p0) * inv_dy_upper
                 in (vx p0 + (vx p1 - vx p0) * t_short, vz p0 + (vz p1 - vz p0) * t_short)
               else
                 let t_short = (fy - vy p1) * inv_dy_lower
                 in (vx p1 + (vx p2 - vx p1) * t_short, vz p1 + (vz p2 - vz p1) * t_short))
        in triangle_loop p0 p1 p2 inv_dy_total inv_dy_upper inv_dy_lower brightness base_color
             iy2 (py + 1)
             (draw_scanline py x_long x_short z_long z_short brightness base_color s)
      else s)"
  by pat_completeness auto
termination
  by (relation "measure (\<lambda>(p0, p1, p2, it, iu, il, br, bc, iy2, py, s). nat (iy2 + 1 - py))") auto

declare triangle_loop.simps [simp del]

text \<open>The three conditional swaps that sort the vertices by their y coordinate.\<close>

definition sort_by_y :: "vec3 \<Rightarrow> vec3 \<Rightarrow> vec3 \<Rightarrow> vec3 \<times> vec3 \<times> vec3" where
  "sort_by_y p0 p1 p2 =
     (let (a0, a1) = (if vy p0 > vy p1 then (p1, p0) else (p0, p1));
          (b0, b2) = (if vy a0 > vy p2 then (p2, a0) else (a0, p2));
          (c1, c2) = (if vy a1 > vy b2 then (b2, a1) else (a1, b2))
      in (b0, c1, c2))"

definition draw_triangle_flat :: "vec3 \<Rightarrow> vec3 \<Rightarrow> vec3 \<Rightarrow> real \<Rightarrow> color \<Rightarrow> gfx \<Rightarrow> gfx" where
  "draw_triangle_flat q0 q1 q2 brightness base_color s =
     (let ctx = fst s;
          (p0, p1, p2) = sort_by_y q0 q1 q2;
          iy0 = \<lceil>vy p0\<rceil>;
          iy2 = \<lfloor>vy p2\<rfloor>
      in if iy2 < 0 \<or> iy0 \<ge> height ctx then s
         else if iy0 > iy2 then s
         else
           let iy0' = (if iy0 < 0 then 0 else iy0);
               iy2' = (if iy2 \<ge> height ctx then height ctx - 1 else iy2);
               dy_total = vy p2 - vy p0;
               dy_upper = vy p1 - vy p0;
               dy_lower = vy p2 - vy p1;
               inv_dy_total = (if dy_total > 1 / 1000 then 1 / dy_total else 0);
               inv_dy_upper = (if dy_upper > 1 / 1000 then 1 / dy_upper else 0);
               inv_dy_lower = (if dy_lower > 1 / 1000 then 1 / dy_lower else 0)
           in triangle_loop p0 p1 p2 inv_dy_total inv_dy_upper inv_dy_lower brightness
                base_color iy2' iy0' s)"

text \<open>The model matrix and the combined matrix, computed alike at the head of
  \<^verbatim>\<open>render3d_draw_mesh\<close> and of \<^verbatim>\<open>render3d_draw_mesh_wireframe\<close>.\<close>

definition model_matrix :: "mesh \<Rightarrow> mat4" where
  "model_matrix mesh =
     (let scale_m = mat4_scale (vx (scale mesh)) (vy (scale mesh)) (vz (scale mesh));
          rot_z = mat4_rotate_z (vz (rotation mesh));
          rot_x = mat4_rotate_x (vx (rotation mesh));
          rot_y = mat4_rotate_y (vy (rotation mesh));
          trans_m = mat4_translate (vx (position mesh)) (vy (position mesh)) (vz (position mesh))
      in mat4_multiply trans_m
           (mat4_multiply rot_y (mat4_multiply rot_x (mat4_multiply rot_z scale_m))))"

definition mvp_matrix :: "render_ctx \<Rightarrow> mesh \<Rightarrow> mat4" where
  "mvp_matrix ctx mesh =
     (let mv = mat4_multiply (view_matrix ctx) (model_matrix mesh)
      in mat4_multiply (proj_matrix ctx) mv)"

text \<open>
  One iteration of the face loop of \<^verbatim>\<open>render3d_draw_mesh\<close> up to the call of
  \<^verbatim>\<open>draw_triangle_flat\<close>: the first \<^verbatim>\<open>continue\<close> is \<open>Culled\<close>, the second is
  \<open>NearRejected\<close>, and \<open>Rasterized\<close> carries the arguments of the call.
\<close>

datatype face_fate = Culled | NearRejected | Rasterized vec3 vec3 vec3 real

definition mesh_face_fate :: "render_ctx \<Rightarrow> mesh \<Rightarrow> face \<Rightarrow> face_fate" where
  "mesh_face_fate ctx mesh f =
     (let model = model_matrix mesh;
          mvp = mvp_matrix ctx mesh;
          v0 = mat4_transform_point model (vertex_at (vertices mesh) (unat (face_v0 f)));
          v1 = mat4_transform_point model (vertex_at (vertices mesh) (unat (face_v1 f)));
          v2 = mat4_transform_point model (vertex_at (vertices mesh) (unat (face_v2 f)));
          normal = calculate_face_normal v0 v1 v2;
          view_dir = vec3_normalize (vec3_sub (cam_position (ctx_camera ctx)) v0)
      in if vec3_dot normal view_dir < 0 then Culled
         else
           let diffuse0 = - vec3_dot normal (direction (ctx_light ctx));
               diffuse = (if diffuse0 < 0 then 0 else diffuse0);
               brightness0 = ambient (ctx_light ctx) + diffuse * intensity (ctx_light ctx);
               brightness = (if brightness0 > 1 then 1 else brightness0);
               p0 = project_point ctx (vertex_at (vertices mesh) (unat (face_v0 f))) mvp;
               p1 = project_point ctx (vertex_at (vertices mesh) (unat (face_v1 f))) mvp;
               p2 = project_point ctx (vertex_at (vertices mesh) (unat (face_v2 f))) mvp
           in if vz p0 < 0 \<or> vz p1 < 0 \<or> vz p2 < 0 then NearRejected
              else Rasterized p0 p1 p2 brightness)"

definition draw_mesh_face :: "mesh \<Rightarrow> face \<Rightarrow> gfx \<Rightarrow> gfx" where
  "draw_mesh_face mesh f s =
     (case mesh_face_fate (fst s) mesh f of
        Culled \<Rightarrow> s
      | NearRejected \<Rightarrow> s
      | Rasterized p0 p1 p2 brightness \<Rightarrow> draw_triangle_flat p0 p1 p2 brightness (face_color f) s)"

text \<open>Array read \<^verbatim>\<open>mesh->faces[i]\<close>; beyond the list (undefined behaviour in C) the
  model skips the face.\<close>

definition render3d_draw_mesh :: "gfx \<Rightarrow> mesh option \<Rightarrow> gfx" where
  "render3d_draw_mesh s mo =
     (case mo of
        None \<Rightarrow> s
      | Some mesh \<Rightarrow>
          if face_count mesh = 0 then s
          else fold (\<lambda>i s'. if i < length (faces mesh) then draw_mesh_face mesh (faces mesh ! i) s'
                             else s')
                 [0 ..< unat (face_count mesh)] s)"

text \<open>One iteration of the face loop of \<^verbatim>\<open>render3d_draw_mesh_wireframe\<close>. The first
  argument is the iteration bound handed to each \<^verbatim>\<open>render3d_draw_line\<close>.\<close>

definition wireframe_face :: "nat \<Rightarrow> mesh \<Rightarrow> face \<Rightarrow> gfx \<Rightarrow> gfx option" where
  "wireframe_face fuel mesh f s =
     (let ctx = fst s;
          mvp = mvp_matrix ctx mesh;
          p0 = project_point ctx (vertex_at (vertices mesh) (unat (face_v0 f))) mvp;
          p1 = project_point ctx (vertex_at (vertices mesh) (unat (face_v1 f))) mvp;
          p2 = project_point ctx (vertex_at (vertices mesh) (unat (face_v2 f))) mvp
      in if vz p0 < 0 \<or> vz p1 < 0 \<or> vz p2 < 0 then Some s
         else
           case render3d_draw_line fuel (c_i32_of_float (vx p0)) (c_i32_of_float (vy p0))
                  (c_i32_of_float (vx p1)) (c_i32_of_float (vy p1)) True (snd s) of
             None \<Rightarrow> None
           | Some fb1 \<Rightarrow>
               (case render3d_draw_line fuel (c_i32_of_float (vx p1)) (c_i32_of_float (vy p1))
                       (c_i32_of_float (vx p2)) (c_i32_of_float (vy p2)) True fb1 of
                  None \<Rightarrow> None
                | Some fb2 \<Rightarrow>
                    (case render3d_draw_line fuel (c_i32_of_float (vx p2)) (c_i32_of_float (vy p2))
                            (c_i32_of_float (vx p0)) (c_i32_of_float (vy p0)) True fb2 of
                       None \<Rightarrow> None
                     | Some fb3 \<Rightarrow> Some (ctx, fb3))))"

fun wireframe_faces :: "nat \<Rightarrow> mesh \<Rightarrow> nat list \<Rightarrow> gfx \<Rightarrow> gfx option" where
  "wireframe_faces fuel mesh [] s = Some s"
| "wireframe_faces fuel mesh (i # is) s =
     (if i < length (faces mesh) then
        (case wireframe_face fuel mesh (faces mesh ! i) s of
           None \<Rightarrow> None
         | Some s' \<Rightarrow> wireframe_faces fuel mesh is s')
      else wireframe_faces fuel mesh is s)"

definition render3d_draw_mesh_wireframe :: "nat \<Rightarrow> gfx \<Rightarrow> mesh option \<Rightarrow> gfx option" where
  "render3d_draw_mesh_wireframe fuel s mo =
     (case mo of
        None \<Rightarrow> Some s
      | Some mesh \<Rightarrow>
          if face_count mesh = 0 then Some s
          else wireframe_faces fuel mesh [0 ..< unat (face_count mesh)] s)"

section \<open>Mesh operations (render3d.c)\<close>

definition zero_face :: face where
  "zero_face = \<lparr>face_v0 = 0, face_v1 = 0, face_v2 = 0,
                 face_color = \<lparr>color_r = 0, color_g = 0, color_b = 0\<rparr>\<rparr>"

text \<open>
  \<^verbatim>\<open>mesh_create\<close>. Whether the four \<^verbatim>\<open>malloc\<close> calls succeed is the first argument;
  on failure the result is \<^verbatim>\<open>NULL\<close>. The arrays have the requested capacity; their
  cells are indeterminate in C and zero in the model.
\<close>

definition mesh_create :: "bool \<Rightarrow> u16 \<Rightarrow> u16 \<Rightarrow> mesh option" where
  "mesh_create alloc_ok max_verts max_faces =
     (if \<not> alloc_ok then None
      else Some \<lparr>vertices = replicate (unat max_verts) (vec3_create 0 0 0),
                 normals = replicate (unat max_verts) (vec3_create 0 0 0),
                 faces = replicate (unat max_faces) zero_face,
                 vertex_count = 0, normal_count = 0, face_count = 0,
                 position = vec3_create 0 0 0, rotation = vec3_create 0 0 0,
                 scale = vec3_create 1 1 1\<rparr>)"

text \<open>The body of the second loop of \<^verbatim>\<open>mesh_calculate_normals\<close>: the face normal is
  added to the normals of the three vertices of the face.\<close>

definition accumulate_face_normal :: "vec3 list \<Rightarrow> face \<Rightarrow> vec3 list \<Rightarrow> vec3 list" where
  "accumulate_face_normal vs f ns =
     (let normal = calculate_face_normal (vertex_at vs (unat (face_v0 f)))
                     (vertex_at vs (unat (face_v1 f))) (vertex_at vs (unat (face_v2 f)));
          ns1 = ns[unat (face_v0 f) := vec3_add (vertex_at ns (unat (face_v0 f))) normal];
          ns2 = ns1[unat (face_v1 f) := vec3_add (vertex_at ns1 (unat (face_v1 f))) normal];
          ns3 = ns2[unat (face_v2 f) := vec3_add (vertex_at ns2 (unat (face_v2 f))) normal]
      in ns3)"

definition mesh_calculate_normals :: "mesh \<Rightarrow> mesh" where
  "mesh_calculate_normals mesh =
     (let ns0 = fold (\<lambda>i ns. ns[i := vec3_create 0 0 0]) [0 ..< unat (vertex_count mesh)]
                  (normals mesh);
          ns1 = fold (\<lambda>i ns. if i < length (faces mesh)
                               then accumulate_face_normal (vertices mesh) (faces mesh ! i) ns
                               else ns)
                  [0 ..< unat (face_count mesh)] ns0;
          ns2 = fold (\<lambda>i ns. ns[i := vec3_normalize (vertex_at ns i)])
                  [0 ..< unat (vertex_count mesh)] ns1
      in mesh\<lparr>normals := ns2, normal_count := vertex_count mesh\<rparr>)"

section \<open>The sphere builder (render3d.c)\<close>

definition sphere_color :: color where
  "sphere_color = \<lparr>color_r = 255, color_g = 220, color_b = 180\<rparr>"

text \<open>The inner loop \<^verbatim>\<open>for (int s = 0; s < slices; s++)\<close> of the middle rings: it
  writes \<^verbatim>\<open>mesh->vertices[vi++]\<close>.\<close>

function sphere_slice_loop ::
  "real \<Rightarrow> real \<Rightarrow> int \<Rightarrow> int \<Rightarrow> vec3 list \<times> int \<Rightarrow> vec3 list \<times> int" where
  "sphere_slice_loop ring_r h slices s (vs, vi) =
     (if s < slices then
        let theta = 2 * pi * real_of_int s / real_of_int slices
        in sphere_slice_loop ring_r h slices (s + 1)
             (vs[nat vi := vec3_create (ring_r * cos theta) h (ring_r * sin theta)], vi + 1)
      else (vs, vi))"
  by pat_completeness auto
termination
  by (relation "measure (\<lambda>(ring_r, h, slices, s, st). nat (slices - s))") auto

declare sphere_slice_loop.simps [simp del]

text \<open>The outer loop \<^verbatim>\<open>for (int r = 1; r < rings; r++)\<close>.\<close>

function sphere_ring_loop ::
  "real \<Rightarrow> int \<Rightarrow> int \<Rightarrow> int \<Rightarrow> vec3 list \<times> int \<Rightarrow> vec3 list \<times> int" where
  "sphere_ring_loop radius rings slices r st =
     (if r < rings then
        let phi = pi * real_of_int r / real_of_int rings;
            h = radius * cos phi;
            ring_r = radius * sin phi
        in sphere_ring_loop radius rings slices (r + 1) (sphere_slice_loop ring_r h slices 0 st)
      else st)"
  by pat_completeness auto
termination
  by (relation "measure (\<lambda>(radius, rings, slices, r, st). nat (rings - r))") auto

declare sphere_ring_loop.simps [simp del]

text \<open>The top cap: \<^verbatim>\<open>for (int s = 0; s < slices; s++)\<close>, writing \<^verbatim>\<open>mesh->faces[fi]\<close>
  and incrementing \<^verbatim>\<open>fi\<close>.\<close>

function sphere_top_loop :: "int \<Rightarrow> int \<Rightarrow> face list \<times> int \<Rightarrow> face list \<times> int" where
  "sphere_top_loop slices s (fs, fi) =
     (if s < slices then
        sphere_top_loop slices (s + 1)
          (fs[nat fi := \<lparr>face_v0 = 0, face_v1 = word_of_int (1 + s),
                           face_v2 = word_of_int (1 + (s + 1) mod slices),
                           face_color = sphere_color\<rparr>],
           fi + 1)
      else (fs, fi))"
  by pat_completeness auto
termination
  by (relation "measure (\<lambda>(slices, s, st). nat (slices - s))") auto

declare sphere_top_loop.simps [simp del]

text \<open>The middle bands: the inner loop writes two faces for each slice.\<close>

function sphere_band_loop ::
  "int \<Rightarrow> int \<Rightarrow> int \<Rightarrow> int \<Rightarrow> face list \<times> int \<Rightarrow> face list \<times> int" where
  "sphere_band_loop slices ring_start next_ring s (fs, fi) =
     (if s < slices then
        let s_next = (s + 1) mod slices;
            fs1 = fs[nat fi := \<lparr>face_v0 = word_of_int (ring_start + s),
                                  face_v1 = word_of_int (next_ring + s),
                                  face_v2 = word_of_int (next_ring + s_next),
                                  face_color = sphere_color\<rparr>];
            fs2 = fs1[nat (fi + 1) := \<lparr>face_v0 = word_of_int (ring_start + s),
                                         face_v1 = word_of_int (next_ring + s_next),
                                         face_v2 = word_of_int (ring_start + s_next),
                                         face_color = sphere_color\<rparr>]
        in sphere_band_loop slices ring_start next_ring (s + 1) (fs2, fi + 2)
      else (fs, fi))"
  by pat_completeness auto
termination
  by (relation "measure (\<lambda>(slices, ring_start, next_ring, s, st). nat (slices - s))") auto

declare sphere_band_loop.simps [simp del]

function sphere_middle_loop ::
  "int \<Rightarrow> int \<Rightarrow> int \<Rightarrow> face list \<times> int \<Rightarrow> face list \<times> int" where
  "sphere_middle_loop rings slices r st =
     (if r < rings - 2 then
        let ring_start = 1 + r * slices;
            next_ring = 1 + (r + 1) * slices
        in sphere_middle_loop rings slices (r + 1)
             (sphere_band_loop slices ring_start next_ring 0 st)
      else st)"
  by pat_completeness auto
termination
  by (relation "measure (\<lambda>(rings, slices, r, st). nat (rings - 2 - r))") auto

declare sphere_middle_loop.simps [simp del]

function sphere_bottom_loop ::
  "int \<Rightarrow> int \<Rightarrow> int \<Rightarrow> int \<Rightarrow> face list \<times> int \<Rightarrow> face list \<times> int" where
  "sphere_bottom_loop slices last_ring bottom s (fs, fi) =
     (if s < slices then
        sphere_bottom_loop slices last_ring bottom (s + 1)
          (fs[nat fi := \<lparr>face_v0 = word_of_int bottom,
                           face_v1 = word_of_int (last_ring + (s + 1) mod slices),
                           face_v2 = word_of_int (last_ring + s),
                           face_color = sphere_color\<rparr>],
           fi + 1)
      else (fs, fi))"
  by pat_completeness auto
termination
  by (relation "measure (\<lambda>(slices, last_ring, bottom, s, st). nat (slices - s))") auto

declare sphere_bottom_loop.simps [simp del]

definition mesh_create_sphere :: "bool \<Rightarrow> real \<Rightarrow> int \<Rightarrow> mesh option" where
  "mesh_create_sphere alloc_ok radius segments0 =
     (let segments1 = (if segments0 < 4 then 4 else segments0);
          segments = (if segments1 > 16 then 16 else segments1);
          rings = segments;
          slices = segments * 2;
          vert_count = (rings - 1) * slices + 2;
          n_faces = (rings - 2) * slices * 2 + slices * 2
      in case mesh_create alloc_ok (word_of_int vert_count) (word_of_int n_faces) of
           None \<Rightarrow> None
         | Some mesh \<Rightarrow>
             let vs0 = (vertices mesh)[0 := vec3_create 0 radius 0];
                 (vs1, vi) = sphere_ring_loop radius rings slices 1 (vs0, 1);
                 vs2 = vs1[nat vi := vec3_create 0 (- radius) 0];
                 n_verts = (word_of_int (vi + 1) :: u16);
                 (fs1, fi1) = sphere_top_loop slices 0 (faces mesh, 0);
                 (fs2, fi2) = sphere_middle_loop rings slices 0 (fs1, fi1);
                 last_ring = 1 + (rings - 2) * slices;
                 bottom = uint n_verts - 1;
                 (fs3, fi3) = sphere_bottom_loop slices last_ring bottom 0 (fs2, fi2)
             in Some (mesh_calculate_normals
                        (mesh\<lparr>vertices := vs2, vertex_count := n_verts,
                              faces := fs3, face_count := word_of_int fi3\<rparr>)))"

text \<open>The clamp of the segment count as the specification words it: into the interval
  from 4 to 16.\<close>

definition clamp_segments :: "int \<Rightarrow> int" where
  "clamp_segments s = max 4 (min 16 s)"

section \<open>C strings and number parsing\<close>

definition MAX_VERTICES :: int where
  "MAX_VERTICES = 128"

definition MAX_FACES :: int where
  "MAX_FACES = 256"

text \<open>The text a C function sees behind \<^verbatim>\<open>const char *\<close>: the characters before
  the first NUL. A position in the text is the list of the characters that remain, and
  \<^verbatim>\<open>*p\<close> is \<open>peek p\<close> (NUL at the end).\<close>

definition c_string :: "string \<Rightarrow> string" where
  "c_string text = takeWhile (\<lambda>c. c \<noteq> CHR 0x00) text"

definition peek :: "string \<Rightarrow> char" where
  "peek p = (case p of [] \<Rightarrow> CHR 0x00 | c # _ \<Rightarrow> c)"

text \<open>\<^verbatim>\<open>isspace\<close> and \<^verbatim>\<open>isdigit\<close> of the C locale.\<close>

definition isspace :: "char \<Rightarrow> bool" where
  "isspace c = (c = CHR '' '' \<or> c = CHR 0x09 \<or> c = CHR 0x0A \<or> c = CHR 0x0B \<or> c = CHR 0x0C \<or>
                c = CHR 0x0D)"

definition isdigit :: "char \<Rightarrow> bool" where
  "isdigit c = (48 \<le> (of_char c :: nat) \<and> (of_char c :: nat) \<le> 57)"

definition digits_value :: "string \<Rightarrow> int" where
  "digits_value ds = foldl (\<lambda>a c. 10 * a + (int (of_char c) - 48)) 0 ds"

text \<open>
  \<^verbatim>\<open>strtol(nptr, &end, 10)\<close> and \<^verbatim>\<open>strtof(nptr, &end)\<close> of the C library, as the C
  standard describes them: leading white space (newlines included) is skipped, then an
  optional sign and the digits are read; without a digit nothing is converted, the value
  is 0 and \<^verbatim>\<open>end\<close> is \<^verbatim>\<open>nptr\<close>. \<^verbatim>\<open>long\<close> has 32 bits on the target, and
  \<^verbatim>\<open>strtol\<close> saturates. For \<^verbatim>\<open>strtof\<close> the decimal forms (digits, a fraction, an
  exponent) are modelled with their exact value; the hexadecimal, infinity and NaN forms
  are not.
\<close>

definition strip_sign :: "string \<Rightarrow> bool \<times> string" where
  "strip_sign q =
     (if peek q = CHR ''-'' then (True, tl q)
      else if peek q = CHR ''+'' then (False, tl q)
      else (False, q))"

definition strtol10 :: "string \<Rightarrow> int \<times> string" where
  "strtol10 nptr =
     (let (neg, r) = strip_sign (dropWhile isspace nptr);
          ds = takeWhile isdigit r
      in if ds = [] then (0, nptr)
         else
           let v = (if neg then - digits_value ds else digits_value ds)
           in (max (- (2 ^ 31)) (min (2 ^ 31 - 1) v), dropWhile isdigit r))"

definition pow10 :: "int \<Rightarrow> real" where
  "pow10 e = (if 0 \<le> e then 10 ^ nat e else 1 / 10 ^ nat (- e))"

definition strtof :: "string \<Rightarrow> real \<times> string" where
  "strtof nptr =
     (let (neg, r) = strip_sign (dropWhile isspace nptr);
          ip = takeWhile isdigit r;
          r1 = dropWhile isdigit r;
          fp = (if peek r1 = CHR ''.'' then takeWhile isdigit (tl r1) else []);
          r2 = (if peek r1 = CHR ''.'' then dropWhile isdigit (tl r1) else r1)
      in if ip = [] \<and> fp = [] then (0, nptr)
         else
           let mant = real_of_int (digits_value (ip @ fp)) / 10 ^ length fp;
               (eneg, er) = strip_sign (tl r2);
               eds = takeWhile isdigit er;
               has_exp = ((peek r2 = CHR ''e'' \<or> peek r2 = CHR ''E'') \<and> eds \<noteq> []);
               ex = (if has_exp then (if eneg then - digits_value eds else digits_value eds) else 0);
               r3 = (if has_exp then dropWhile isdigit er else r2);
               v = mant * pow10 ex
           in (if neg then - v else v, r3))"

section \<open>The OBJ loader (\<^verbatim>\<open>obj_loader.c\<close>)\<close>

definition skip_ws :: "string \<Rightarrow> string" where
  "skip_ws p = dropWhile (\<lambda>c. isspace c \<and> c \<noteq> CHR 0x0A) p"

definition parse_float :: "string \<Rightarrow> real \<times> string" where
  "parse_float p = strtof (skip_ws p)"

definition parse_int :: "string \<Rightarrow> int \<times> string" where
  "parse_int p = strtol10 (skip_ws p)"

definition parse_face_index :: "string \<Rightarrow> int \<times> string" where
  "parse_face_index p0 =
     (let (idx, p) = parse_int p0
      in if peek p = CHR ''/'' then
           let p1 = tl p;
               p2 = (if peek p1 \<noteq> CHR ''/'' then snd (strtol10 p1) else p1);
               p3 = (if peek p2 = CHR ''/'' then snd (strtol10 (tl p2)) else p2)
           in (idx, p3)
         else (idx, p))"

definition next_line :: "string \<Rightarrow> string" where
  "next_line p =
     (let q = dropWhile (\<lambda>c. c \<noteq> CHR 0x0A) p
      in if peek q = CHR 0x0A then tl q else q)"

text \<open>
  The inner loop of \<^verbatim>\<open>count_elements\<close> over the indices of a face line. It does not
  advance on a character that starts no index (for example a letter), so it may run
  forever: the result is \<open>None\<close> then.
\<close>

partial_function (option) count_face_verts :: "string \<Rightarrow> int \<Rightarrow> int option" where
  "count_face_verts line face_verts =
     (if peek line \<noteq> CHR 0x00 \<and> peek line \<noteq> CHR 0x0A then
        let line1 = skip_ws line
        in if peek line1 \<noteq> CHR 0x00 \<and> peek line1 \<noteq> CHR 0x0A
           then count_face_verts (snd (parse_face_index line1)) (face_verts + 1)
           else count_face_verts line1 face_verts
      else Some face_verts)"

text \<open>The loop \<^verbatim>\<open>while (*p)\<close> of \<^verbatim>\<open>count_elements\<close>.\<close>

partial_function (option) count_loop :: "string \<Rightarrow> int \<Rightarrow> int \<Rightarrow> (int \<times> int) option" where
  "count_loop p verts n_faces =
     (if peek p \<noteq> CHR 0x00 then
        let p1 = skip_ws p
        in if peek p1 = CHR ''v'' \<and> peek (tl p1) = CHR '' ''
           then count_loop (next_line p1) (verts + 1) n_faces
           else if peek p1 = CHR ''f'' \<and> peek (tl p1) = CHR '' ''
           then (case count_face_verts (drop 2 p1) 0 of
                   None \<Rightarrow> None
                 | Some face_verts \<Rightarrow>
                     count_loop (next_line p1) verts
                       (if face_verts \<ge> 3 then n_faces + (face_verts - 2) else n_faces))
           else count_loop (next_line p1) verts n_faces
      else Some (verts, n_faces))"

definition count_elements :: "string \<Rightarrow> (int \<times> int) option" where
  "count_elements data = count_loop data 0 0"

text \<open>
  The index loop of a face line in \<^verbatim>\<open>obj_load_from_string\<close>. The local array
  \<^verbatim>\<open>face_indices[16]\<close> with its count \<^verbatim>\<open>nv\<close> is the list of the indices stored so
  far. As in \<^verbatim>\<open>count_elements\<close>, the loop may run forever.
\<close>

partial_function (option) face_index_loop ::
  "int \<Rightarrow> string \<Rightarrow> int list \<Rightarrow> (string \<times> int list) option" where
  "face_index_loop vi p face_indices =
     (if peek p \<noteq> CHR 0x00 \<and> peek p \<noteq> CHR 0x0A \<and> length face_indices < 16 then
        let p1 = skip_ws p
        in if peek p1 \<noteq> CHR 0x00 \<and> peek p1 \<noteq> CHR 0x0A \<and> \<not> isspace (peek p1) then
             let (idx0, p2) = parse_face_index p1;
                 idx = (if idx0 < 0 then vi + idx0 else idx0 - 1)
             in face_index_loop vi p2
                  (if idx \<ge> 0 \<and> idx < vi then face_indices @ [idx] else face_indices)
           else face_index_loop vi p1 face_indices
      else Some (p, face_indices))"

text \<open>The fan triangulation \<^verbatim>\<open>for (int i = 1; i < nv - 1 && fi < face_count; i++)\<close>.\<close>

function fan_loop ::
  "int list \<Rightarrow> color \<Rightarrow> int \<Rightarrow> int \<Rightarrow> face list \<times> int \<Rightarrow> face list \<times> int" where
  "fan_loop face_indices col n_faces i (fs, fi) =
     (if i < int (length face_indices) - 1 \<and> fi < n_faces then
        fan_loop face_indices col n_faces (i + 1)
          (fs[nat fi := \<lparr>face_v0 = word_of_int (face_indices ! 0),
                           face_v1 = word_of_int (face_indices ! nat i),
                           face_v2 = word_of_int (face_indices ! nat (i + 1)),
                           face_color = col\<rparr>],
           fi + 1)
      else (fs, fi))"
  by pat_completeness auto
termination
  by (relation "measure (\<lambda>(face_indices, col, n_faces, i, st). nat (int (length face_indices) - 1 - i))")
     auto

declare fan_loop.simps [simp del]

text \<open>The loop \<^verbatim>\<open>while (*p)\<close> of \<^verbatim>\<open>obj_load_from_string\<close>; the state is the vertex
  array with \<^verbatim>\<open>vi\<close> and the face array with \<^verbatim>\<open>fi\<close>.\<close>

partial_function (option) parse_loop ::
  "color \<Rightarrow> int \<Rightarrow> string \<Rightarrow> vec3 list \<times> int \<times> face list \<times> int \<Rightarrow>
   (vec3 list \<times> int \<times> face list \<times> int) option" where
  "parse_loop col n_faces p st =
     (if peek p \<noteq> CHR 0x00 then
        let p1 = skip_ws p
        in if peek p1 = CHR ''v'' \<and> peek (tl p1) = CHR '' '' then
             (case st of (vs, vi, fs, fi) \<Rightarrow>
                let (x, p3) = parse_float (drop 2 p1);
                    (y, p4) = parse_float p3;
                    (z, p5) = parse_float p4
                in parse_loop col n_faces (next_line p5)
                     (vs[nat vi := vec3_create x y z], vi + 1, fs, fi))
           else if peek p1 = CHR ''f'' \<and> peek (tl p1) = CHR '' '' then
             (case st of (vs, vi, fs, fi) \<Rightarrow>
                (case face_index_loop vi (drop 2 p1) [] of
                   None \<Rightarrow> None
                 | Some (p2, face_indices) \<Rightarrow>
                     (case fan_loop face_indices col n_faces 1 (fs, fi) of (fs', fi') \<Rightarrow>
                        parse_loop col n_faces (next_line p2) (vs, vi, fs', fi'))))
           else parse_loop col n_faces (next_line p1) st
      else Some st)"

text \<open>The conversion \<^verbatim>\<open>%d\<close> of \<^verbatim>\<open>snprintf\<close>, and the truncation to the 128 bytes
  of \<^verbatim>\<open>error_msg\<close> (127 characters and the NUL).\<close>

definition digit_char :: "nat \<Rightarrow> char" where
  "digit_char d = ''0123456789'' ! d"

function dec_nat :: "nat \<Rightarrow> string" where
  "dec_nat n = (if n < 10 then [digit_char n] else dec_nat (n div 10) @ [digit_char (n mod 10)])"
  by pat_completeness auto
termination
  by (relation "measure id") auto

declare dec_nat.simps [simp del]

definition dec_int :: "int \<Rightarrow> string" where
  "dec_int i = (if i < 0 then CHR ''-'' # dec_nat (nat (- i)) else dec_nat (nat i))"

definition snprintf128 :: "string \<Rightarrow> string" where
  "snprintf128 text = take 127 text"

text \<open>
  \<^verbatim>\<open>obj_load_from_string\<close>. The arguments are whether \<^verbatim>\<open>mesh_create\<close> can allocate,
  the content of the static buffer \<^verbatim>\<open>error_msg\<close> before the call, the text (or
  \<^verbatim>\<open>NULL\<close>) and the default colour. The result is the returned mesh (or \<^verbatim>\<open>NULL\<close>)
  and the content of \<^verbatim>\<open>error_msg\<close> after the call; it is \<open>None\<close> when the function
  does not return.
\<close>

definition obj_load_from_string ::
  "bool \<Rightarrow> string \<Rightarrow> string option \<Rightarrow> color \<Rightarrow> (mesh option \<times> string) option" where
  "obj_load_from_string alloc_ok error_msg obj_data default_color =
     (case obj_data of
        None \<Rightarrow> Some (None, snprintf128 ''Null data pointer'')
      | Some text \<Rightarrow>
          (case count_elements (c_string text) of
             None \<Rightarrow> None
           | Some (vert_count, n_faces) \<Rightarrow>
               if vert_count = 0 then Some (None, snprintf128 ''No vertices found'')
               else if vert_count > MAX_VERTICES \<or> n_faces > MAX_FACES then
                 Some (None,
                   snprintf128 (''Model too large: '' @ dec_int vert_count @ '' verts, '' @
                     dec_int n_faces @ '' faces (max '' @ dec_int MAX_VERTICES @ ''/'' @
                     dec_int MAX_FACES @ '')''))
               else
                 (case mesh_create alloc_ok (word_of_int (vert_count + 1))
                         (word_of_int (n_faces + 1)) of
                    None \<Rightarrow> Some (None, snprintf128 ''Failed to allocate mesh'')
                  | Some mesh \<Rightarrow>
                      (case parse_loop default_color n_faces (c_string text)
                              (vertices mesh, 0, faces mesh, 0) of
                         None \<Rightarrow> None
                       | Some (vs, vi, fs, fi) \<Rightarrow>
                           Some (Some (mesh_calculate_normals
                                         (mesh\<lparr>vertices := vs, faces := fs,
                                               vertex_count := word_of_int vi,
                                               face_count := word_of_int fi\<rparr>)),
                                 snprintf128 (''OK: '' @ dec_int vi @ '' verts, '' @
                                   dec_int fi @ '' faces''))))))"

text \<open>\<^verbatim>\<open>obj_get_error\<close> returns the buffer.\<close>

definition obj_get_error :: "string \<Rightarrow> string" where
  "obj_get_error error_msg = error_msg"

text \<open>A success message is one that \<^verbatim>\<open>"OK: %d verts, %d faces"\<close> can produce.\<close>

definition is_success_message :: "string \<Rightarrow> bool" where
  "is_success_message msg = (take 4 msg = ''OK: '')"

text \<open>Inputs: a text of \<open>n\<close> vertex lines, and the triangle of the specification.\<close>

definition v_lines :: "nat \<Rightarrow> string" where
  "v_lines n = concat (replicate n ''v \<newline>'')"

definition triangle_obj :: string where
  "triangle_obj = ''v 0 0 0\<newline>v 1 0 0\<newline>v 0 1 0\<newline>f 1 2 3\<newline>''"

section \<open>Fragments of a triangle\<close>

text \<open>
  A fragment is one iteration of the pixel loop of \<^verbatim>\<open>draw_scanline\<close>: the pixel
  \<open>(x, y)\<close> and the interpolated depth \<open>z\<close> there. \<open>apply_fragment\<close> is the body of that
  loop, the depth test and the two writes. The fragment lists below run the loops of
  \<^verbatim>\<open>draw_scanline\<close> and \<^verbatim>\<open>draw_triangle_flat\<close> without the state, for a context of
  width \<open>w\<close> and height \<open>h\<close>; the lemma \<open>draw_triangle_flat_fold\<close> shows that drawing a
  triangle is applying its fragments in order.
\<close>

type_synonym fragment = "int \<times> int \<times> real"

definition apply_fragment :: "real \<Rightarrow> fragment \<Rightarrow> gfx \<Rightarrow> gfx" where
  "apply_fragment brightness f s =
     (case f of (px, py, z) \<Rightarrow>
        let ctx = fst s;
            idx = py * width ctx + px
        in if z < zbuffer ctx idx
           then (ctx\<lparr>zbuffer := (zbuffer ctx)(idx := z)\<rparr>,
                 ssd1306_set_pixel px py (mono_pixel px py brightness) (snd s))
           else s)"

function scan_fragments :: "int \<Rightarrow> int \<Rightarrow> real \<Rightarrow> int \<Rightarrow> real \<Rightarrow> fragment list" where
  "scan_fragments py ix2 dz px z =
     (if px \<le> ix2 then (px, py, z) # scan_fragments py ix2 dz (px + 1) (z + dz) else [])"
  by pat_completeness auto
termination
  by (relation "measure (\<lambda>(py, ix2, dz, px, z). nat (ix2 + 1 - px))") auto

declare scan_fragments.simps [simp del]

text \<open>The clipped span of \<^verbatim>\<open>draw_scanline\<close>: the first and last column, the depth at
  the first column and the depth step, or \<open>None\<close> where the function returns early.\<close>

definition clipped_span ::
  "int \<Rightarrow> int \<Rightarrow> int \<Rightarrow> real \<Rightarrow> real \<Rightarrow> real \<Rightarrow> real \<Rightarrow> (int \<times> int \<times> real \<times> real) option" where
  "clipped_span w h py x1 x2 z1 z2 =
     (if py < 0 \<or> py \<ge> h then None
      else
        let (xa, xb, za, zb) = (if x1 > x2 then (x2, x1, z2, z1) else (x1, x2, z1, z2));
            ix1 = c_int_of_float xa;
            ix2 = c_int_of_float xb
        in if ix2 < 0 \<or> ix1 \<ge> w then None
           else
             let dx = xb - xa;
                 dz = (if dx > 1 / 1000 then (zb - za) / dx else 0);
                 z = (if ix1 < 0 then za + dz * (0 - xa) else za);
                 ix1' = (if ix1 < 0 then 0 else ix1);
                 ix2' = (if ix2 \<ge> w then w - 1 else ix2)
             in Some (ix1', ix2', z, dz))"

definition scanline_fragments ::
  "int \<Rightarrow> int \<Rightarrow> int \<Rightarrow> real \<Rightarrow> real \<Rightarrow> real \<Rightarrow> real \<Rightarrow> fragment list" where
  "scanline_fragments w h py x1 x2 z1 z2 =
     (case clipped_span w h py x1 x2 z1 z2 of
        None \<Rightarrow> []
      | Some (ix1, ix2, z, dz) \<Rightarrow> scan_fragments py ix2 dz ix1 z)"

definition row_fragments ::
  "int \<Rightarrow> int \<Rightarrow> vec3 \<Rightarrow> vec3 \<Rightarrow> vec3 \<Rightarrow> real \<Rightarrow> real \<Rightarrow> real \<Rightarrow> int \<Rightarrow> fragment list" where
  "row_fragments w h p0 p1 p2 inv_dy_total inv_dy_upper inv_dy_lower py =
     (let fy = real_of_int py + 1 / 2;
          t_long = (fy - vy p0) * inv_dy_total;
          x_long = vx p0 + (vx p2 - vx p0) * t_long;
          z_long = vz p0 + (vz p2 - vz p0) * t_long;
          (x_short, z_short) =
            (if fy < vy p1 then
               let t_short = (fy - vy p0) * inv_dy_upper
               in (vx p0 + (vx p1 - vx p0) * t_short, vz p0 + (vz p1 - vz p0) * t_short)
             else
               let t_short = (fy - vy p1) * inv_dy_lower
               in (vx p1 + (vx p2 - vx p1) * t_short, vz p1 + (vz p2 - vz p1) * t_short))
      in scanline_fragments w h py x_long x_short z_long z_short)"

function triangle_loop_fragments ::
  "int \<Rightarrow> int \<Rightarrow> vec3 \<Rightarrow> vec3 \<Rightarrow> vec3 \<Rightarrow> real \<Rightarrow> real \<Rightarrow> real \<Rightarrow> int \<Rightarrow> int \<Rightarrow> fragment list" where
  "triangle_loop_fragments w h p0 p1 p2 inv_dy_total inv_dy_upper inv_dy_lower iy2 py =
     (if py \<le> iy2 then
        row_fragments w h p0 p1 p2 inv_dy_total inv_dy_upper inv_dy_lower py @
        triangle_loop_fragments w h p0 p1 p2 inv_dy_total inv_dy_upper inv_dy_lower iy2 (py + 1)
      else [])"
  by pat_completeness auto
termination
  by (relation "measure (\<lambda>(w, h, p0, p1, p2, it, iu, il, iy2, py). nat (iy2 + 1 - py))") auto

declare triangle_loop_fragments.simps [simp del]

definition triangle_fragments :: "int \<Rightarrow> int \<Rightarrow> vec3 \<Rightarrow> vec3 \<Rightarrow> vec3 \<Rightarrow> fragment list" where
  "triangle_fragments w h q0 q1 q2 =
     (let (p0, p1, p2) = sort_by_y q0 q1 q2;
          iy0 = \<lceil>vy p0\<rceil>;
          iy2 = \<lfloor>vy p2\<rfloor>
      in if iy2 < 0 \<or> iy0 \<ge> h then []
         else if iy0 > iy2 then []
         else
           let iy0' = (if iy0 < 0 then 0 else iy0);
               iy2' = (if iy2 \<ge> h then h - 1 else iy2);
               dy_total = vy p2 - vy p0;
               dy_upper = vy p1 - vy p0;
               dy_lower = vy p2 - vy p1;
               inv_dy_total = (if dy_total > 1 / 1000 then 1 / dy_total else 0);
               inv_dy_upper = (if dy_upper > 1 / 1000 then 1 / dy_upper else 0);
               inv_dy_lower = (if dy_lower > 1 / 1000 then 1 / dy_lower else 0)
           in triangle_loop_fragments w h p0 p1 p2 inv_dy_total inv_dy_upper inv_dy_lower
                iy2' iy0')"

text \<open>What is observed at a pixel: the stored depth and the pixel of the display.\<close>

definition on_display :: "int \<Rightarrow> int \<Rightarrow> bool" where
  "on_display px py = (0 \<le> px \<and> px < SSD1306_WIDTH \<and> 0 \<le> py \<and> py < SSD1306_HEIGHT)"

definition pixel_view :: "gfx \<Rightarrow> int \<Rightarrow> int \<Rightarrow> real \<times> bool" where
  "pixel_view s px py =
     (zbuffer (fst s) (py * width (fst s) + px), ssd1306_get_pixel px py (snd s))"

definition fragments_at :: "int \<Rightarrow> int \<Rightarrow> fragment list \<Rightarrow> fragment list" where
  "fragments_at px py fs = filter (\<lambda>f. fst f = px \<and> fst (snd f) = py) fs"

definition view_step :: "real \<Rightarrow> int \<Rightarrow> int \<Rightarrow> fragment \<Rightarrow> real \<times> bool \<Rightarrow> real \<times> bool" where
  "view_step brightness px py f v =
     (if snd (snd f) < fst v then (snd (snd f), on_display px py \<and> mono_pixel px py brightness)
      else v)"

definition in_columns :: "int \<Rightarrow> fragment list \<Rightarrow> bool" where
  "in_columns w fs = list_all (\<lambda>f. 0 \<le> fst f \<and> fst f < w) fs"

text \<open>The interpolated depth of a triangle at a pixel, if the triangle covers it.\<close>

definition triangle_depth :: "int \<Rightarrow> int \<Rightarrow> vec3 \<Rightarrow> vec3 \<Rightarrow> vec3 \<Rightarrow> int \<Rightarrow> int \<Rightarrow> real option" where
  "triangle_depth w h q0 q1 q2 px py =
     (case fragments_at px py (triangle_fragments w h q0 q1 q2) of
        [] \<Rightarrow> None
      | f # _ \<Rightarrow> Some (snd (snd f)))"

section \<open>Named quantities of the face loop\<close>

text \<open>The values that one iteration of the face loop of \<^verbatim>\<open>render3d_draw_mesh\<close> binds
  to \<^verbatim>\<open>v0\<close>, \<^verbatim>\<open>normal\<close>, \<^verbatim>\<open>view_dir\<close>, \<^verbatim>\<open>p0\<close> and \<^verbatim>\<open>brightness\<close>, as
  functions of the context, the mesh and the face.\<close>

definition world_vertex :: "mesh \<Rightarrow> u16 \<Rightarrow> vec3" where
  "world_vertex mesh i =
     mat4_transform_point (model_matrix mesh) (vertex_at (vertices mesh) (unat i))"

definition face_normal :: "mesh \<Rightarrow> face \<Rightarrow> vec3" where
  "face_normal mesh f =
     calculate_face_normal (world_vertex mesh (face_v0 f)) (world_vertex mesh (face_v1 f))
       (world_vertex mesh (face_v2 f))"

definition face_view_dir :: "render_ctx \<Rightarrow> mesh \<Rightarrow> face \<Rightarrow> vec3" where
  "face_view_dir ctx mesh f =
     vec3_normalize (vec3_sub (cam_position (ctx_camera ctx)) (world_vertex mesh (face_v0 f)))"

definition projected_vertex :: "render_ctx \<Rightarrow> mesh \<Rightarrow> u16 \<Rightarrow> vec3" where
  "projected_vertex ctx mesh i =
     project_point ctx (vertex_at (vertices mesh) (unat i)) (mvp_matrix ctx mesh)"

definition flat_brightness :: "render_ctx \<Rightarrow> mesh \<Rightarrow> face \<Rightarrow> real" where
  "flat_brightness ctx mesh f =
     min 1 (ambient (ctx_light ctx) +
            max 0 (- vec3_dot (face_normal mesh f) (direction (ctx_light ctx))) *
            intensity (ctx_light ctx))"



text \<open>The three calls of \<^verbatim>\<open>render3d_draw_line\<close> in the loop body of
  \<^verbatim>\<open>render3d_draw_mesh_wireframe\<close>, on the projected vertices, in the order of the
  code; \<open>None\<close> when one of them does not return.\<close>

definition wireframe_edges ::
  "nat \<Rightarrow> vec3 \<Rightarrow> vec3 \<Rightarrow> vec3 \<Rightarrow> frame_buffer \<Rightarrow> frame_buffer option" where
  "wireframe_edges fuel p0 p1 p2 fb =
     Option.bind
       (render3d_draw_line fuel (c_i32_of_float (vx p0)) (c_i32_of_float (vy p0))
          (c_i32_of_float (vx p1)) (c_i32_of_float (vy p1)) True fb)
       (\<lambda>fb1. Option.bind
          (render3d_draw_line fuel (c_i32_of_float (vx p1)) (c_i32_of_float (vy p1))
             (c_i32_of_float (vx p2)) (c_i32_of_float (vy p2)) True fb1)
          (\<lambda>fb2. render3d_draw_line fuel (c_i32_of_float (vx p2)) (c_i32_of_float (vy p2))
             (c_i32_of_float (vx p0)) (c_i32_of_float (vy p0)) True fb2))"

section \<open>Concrete inputs\<close>

text \<open>A 2 by 2 context with identity view and projection matrices, the camera at
  \<open>(0, 0, 1)\<close>, a given light, and a depth buffer as \<^verbatim>\<open>render3d_clear\<close> leaves it.\<close>

definition lit_ctx :: "light \<Rightarrow> render_ctx" where
  "lit_ctx l =
     \<lparr>ctx_camera = \<lparr>cam_position = vec3_create 0 0 1, cam_target = vec3_create 0 0 0,
                     cam_up = vec3_create 0 1 0, cam_fov = 60, cam_near_plane = 1 / 10,
                     cam_far_plane = 100\<rparr>,
      ctx_light = l,
      view_matrix = mat4_identity, proj_matrix = mat4_identity,
      zbuffer = (\<lambda>i. CLEAR_DEPTH), width = 2, height = 2\<rparr>"

definition unit_ctx :: render_ctx where
  "unit_ctx = lit_ctx \<lparr>direction = vec3_create 0 0 (- 1), intensity = 1, ambient = 1 / 5\<rparr>"

definition dark_ctx :: render_ctx where
  "dark_ctx = lit_ctx \<lparr>direction = vec3_create 0 0 1, intensity = 1, ambient = - 1 / 2\<rparr>"

definition white :: color where
  "white = \<lparr>color_r = 255, color_g = 255, color_b = 255\<rparr>"

definition tri_face :: face where
  "tri_face = \<lparr>face_v0 = 0, face_v1 = 1, face_v2 = 2, face_color = white\<rparr>"

text \<open>A mesh of one triangle with the neutral transform (scale 1, no rotation, at the
  origin).\<close>

definition tri_mesh :: "vec3 \<Rightarrow> vec3 \<Rightarrow> vec3 \<Rightarrow> mesh" where
  "tri_mesh a b c =
     \<lparr>vertices = [a, b, c], normals = [], faces = [tri_face],
      vertex_count = 3, normal_count = 0, face_count = 1,
      position = vec3_create 0 0 0, rotation = vec3_create 0 0 0, scale = vec3_create 1 1 1\<rparr>"

definition front_mesh :: mesh where
  "front_mesh = tri_mesh (vec3_create 0 0 0) (vec3_create 1 0 0) (vec3_create 0 1 0)"


definition behind_mesh :: mesh where
  "behind_mesh = tri_mesh (vec3_create 0 0 (- 1)) (vec3_create 1 0 (- 1)) (vec3_create 0 1 (- 1))"

definition empty_mesh :: mesh where
  "empty_mesh = (tri_mesh (vec3_create 0 0 0) (vec3_create 1 0 0) (vec3_create 0 1 0))
     \<lparr>faces := [], face_count := 0\<rparr>"

section \<open>Properties\<close>

lemma and_3_eq_mod_4: "(k::int) AND 3 = k mod 4"
  using take_bit_eq_mask [of 2 k] by (simp add: take_bit_eq_mod mask_eq_exp_minus_1)

text \<open>
  Claim C4. For all integer pixel coordinates and every brightness, \<open>dither_pixel\<close> is a
  function of its arguments alone, is off when the brightness is at most 0, on when it is
  at least 1, and otherwise on exactly when sixteen times the brightness exceeds the
  Bayer threshold at row \<open>y mod 4\<close>, column \<open>x mod 4\<close>.
\<close>

theorem dither_pixel_spec:
  "dither_pixel px py b =
     (if b \<le> 0 then False
      else if 1 \<le> b then True
      else real_of_int (uint (DITHER_BAYER4 ! nat (py mod 4) ! nat (px mod 4))) < b * 16)"
  by (simp add: dither_pixel_def and_3_eq_mod_4)


subsection \<open>Matrices and the neutral transform\<close>

lemma mat4_identity_apply: "mat4_identity i j = (if i = j \<and> i < 4 then 1 else 0)"
  by (auto simp: mat4_identity_def mat4_set_def mat4_zero_def)

lemma mat4_multiply_apply:
  "mat4_multiply a b i j =
     (if i < 4 \<and> j < 4 then a i 0 * b 0 j + a i 1 * b 1 j + a i 2 * b 2 j + a i 3 * b 3 j else 0)"
  by (simp add: mat4_multiply_def)

lemma mat4_multiply_identity_identity: "mat4_multiply mat4_identity mat4_identity = mat4_identity"
  by (intro ext) (auto simp: mat4_multiply_apply mat4_identity_apply)

lemma mat4_scale_one: "mat4_scale 1 1 1 = mat4_identity"
  by (intro ext) (auto simp: mat4_scale_def mat4_set_def mat4_identity_apply)

lemma mat4_translate_zero: "mat4_translate 0 0 0 = mat4_identity"
  by (intro ext) (auto simp: mat4_translate_def mat4_set_def mat4_identity_apply)

lemma mat4_rotate_zero:
  "mat4_rotate_x 0 = mat4_identity" "mat4_rotate_y 0 = mat4_identity"
  "mat4_rotate_z 0 = mat4_identity"
  by (intro ext; auto simp: mat4_rotate_x_def mat4_rotate_y_def mat4_rotate_z_def DEG_TO_RAD_def
        mat4_set_def mat4_identity_apply)+

lemma model_matrix_neutral:
  "scale mesh = vec3_create 1 1 1 \<Longrightarrow> rotation mesh = vec3_create 0 0 0 \<Longrightarrow>
   position mesh = vec3_create 0 0 0 \<Longrightarrow> model_matrix mesh = mat4_identity"
  by (simp add: model_matrix_def vec3_create_def mat4_scale_one mat4_translate_zero
        mat4_rotate_zero mat4_multiply_identity_identity)

lemma mat4_transform_point_identity: "mat4_transform_point mat4_identity p = p"
  by (simp add: mat4_transform_point_def mat4_identity_apply)

subsection \<open>The face loop of the fill path\<close>

lemma mesh_face_fate_unfold:
  "mesh_face_fate ctx mesh f =
     (if vec3_dot (face_normal mesh f) (face_view_dir ctx mesh f) < 0 then Culled
      else if vz (projected_vertex ctx mesh (face_v0 f)) < 0 \<or>
              vz (projected_vertex ctx mesh (face_v1 f)) < 0 \<or>
              vz (projected_vertex ctx mesh (face_v2 f)) < 0 then NearRejected
      else Rasterized (projected_vertex ctx mesh (face_v0 f))
             (projected_vertex ctx mesh (face_v1 f)) (projected_vertex ctx mesh (face_v2 f))
             (flat_brightness ctx mesh f))"
  by (simp add: mesh_face_fate_def face_normal_def face_view_dir_def projected_vertex_def
        world_vertex_def flat_brightness_def Let_def min_def max_def)









lemma draw_mesh_face_discards:
  "mesh_face_fate (fst s) mesh f = Culled \<or> mesh_face_fate (fst s) mesh f = NearRejected \<Longrightarrow>
   draw_mesh_face mesh f s = s"
  by (auto simp: draw_mesh_face_def)

subsection \<open>Evaluation on the concrete inputs\<close>

lemmas vec3_eval = vec3_create_def vec3_sub_def vec3_cross_def vec3_dot_def vec3_mul_def
  vec3_length_def

lemma lit_ctx_fields:
  "cam_position (ctx_camera (lit_ctx l)) = vec3_create 0 0 1"
  "ctx_light (lit_ctx l) = l"
  "view_matrix (lit_ctx l) = mat4_identity"
  "proj_matrix (lit_ctx l) = mat4_identity"
  "zbuffer (lit_ctx l) = (\<lambda>i. CLEAR_DEPTH)"
  "width (lit_ctx l) = 2"
  "height (lit_ctx l) = 2"
  by (simp_all add: lit_ctx_def)

lemma tri_face_fields:
  "face_v0 tri_face = 0" "face_v1 tri_face = 1" "face_v2 tri_face = 2"
  "face_color tri_face = white"
  by (simp_all add: tri_face_def)

lemma model_tri: "model_matrix (tri_mesh a b c) = mat4_identity"
  by (rule model_matrix_neutral) (simp_all add: tri_mesh_def)

lemma mvp_tri: "mvp_matrix (lit_ctx l) (tri_mesh a b c) = mat4_identity"
  by (simp add: mvp_matrix_def model_tri lit_ctx_fields mat4_multiply_identity_identity)

lemma world_vertex_tri:
  "world_vertex (tri_mesh a b c) 0 = a" "world_vertex (tri_mesh a b c) 1 = b"
  "world_vertex (tri_mesh a b c) 2 = c"
  by (simp_all add: world_vertex_def model_tri mat4_transform_point_identity vertex_at_def)
     (simp_all add: tri_mesh_def)

lemma projected_vertex_tri:
  "projected_vertex (lit_ctx l) (tri_mesh a b c) 0 = vec3_create (vx a + 1) (1 - vy a) (vz a)"
  "projected_vertex (lit_ctx l) (tri_mesh a b c) 1 = vec3_create (vx b + 1) (1 - vy b) (vz b)"
  "projected_vertex (lit_ctx l) (tri_mesh a b c) 2 = vec3_create (vx c + 1) (1 - vy c) (vz c)"
  by (simp_all add: projected_vertex_def mvp_tri mat4_transform_point_identity vertex_at_def
        project_point_def lit_ctx_fields)
     (simp_all add: tri_mesh_def vec3_create_def add_divide_distrib diff_divide_distrib)

lemma face_normal_tri: "face_normal (tri_mesh a b c) tri_face = calculate_face_normal a b c"
  by (simp add: face_normal_def tri_face_fields world_vertex_tri)

lemma face_view_dir_tri:
  "face_view_dir (lit_ctx l) (tri_mesh a b c) tri_face =
     vec3_normalize (vec3_sub (vec3_create 0 0 1) a)"
  by (simp add: face_view_dir_def tri_face_fields world_vertex_tri lit_ctx_fields)


lemma normal_front:
  "calculate_face_normal (vec3_create 0 0 0) (vec3_create 1 0 0) (vec3_create 0 1 0) =
     vec3_create 0 0 1"
  by (simp add: calculate_face_normal_def vec3_eval) (simp add: vec3_normalize_def vec3_eval)


lemma view_front:
  "vec3_normalize (vec3_sub (vec3_create 0 0 1) (vec3_create 0 0 0)) = vec3_create 0 0 1"
  by (simp add: vec3_eval) (simp add: vec3_normalize_def vec3_eval)


lemma clear_lit_ctx: "render3d_clear (lit_ctx l, fb) = (lit_ctx l, ssd1306_clear)"
proof -
  have "fold (\<lambda>i zb. zb(i := CLEAR_DEPTH)) xs (\<lambda>i. CLEAR_DEPTH) = (\<lambda>i. CLEAR_DEPTH)"
    for xs :: "int list"
    by (induction xs) (simp_all add: fun_upd_idem)
  then show ?thesis
    by (simp add: render3d_clear_def Let_def lit_ctx_def)
qed

lemma fate_front:
  "mesh_face_fate unit_ctx front_mesh tri_face =
     Rasterized (vec3_create 1 1 0) (vec3_create 2 1 0) (vec3_create 1 0 0) 1"
  by (simp add: mesh_face_fate_unfold unit_ctx_def front_mesh_def face_normal_tri
        face_view_dir_tri normal_front view_front tri_face_fields projected_vertex_tri
        flat_brightness_def lit_ctx_fields)
     (simp add: vec3_eval)

lemma fate_dark:
  "mesh_face_fate dark_ctx front_mesh tri_face =
     Rasterized (vec3_create 1 1 0) (vec3_create 2 1 0) (vec3_create 1 0 0) (- 1 / 2)"
  by (simp add: mesh_face_fate_unfold dark_ctx_def front_mesh_def face_normal_tri
        face_view_dir_tri normal_front view_front tri_face_fields projected_vertex_tri
        flat_brightness_def lit_ctx_fields)
     (simp add: vec3_eval)

lemma fate_behind: "mesh_face_fate unit_ctx behind_mesh tri_face = NearRejected"
  by (simp add: mesh_face_fate_unfold unit_ctx_def behind_mesh_def face_normal_tri
        face_view_dir_tri tri_face_fields projected_vertex_tri)
     (simp add: calculate_face_normal_def vec3_normalize_def vec3_eval
        real_sqrt_abs2 [of 2, simplified])

lemma draw_front_depth:
  "zbuffer (fst (draw_mesh_face front_mesh tri_face (unit_ctx, ssd1306_clear))) 1 = 0"
  by (simp add: draw_mesh_face_def fate_front)
     (simp add: draw_triangle_flat_def sort_by_y_def vec3_create_def unit_ctx_def lit_ctx_def
        Let_def draw_scanline_def c_int_of_float_def CLEAR_DEPTH_def triangle_loop.simps
        scanline_loop.simps)

subsection \<open>Back-face culling\<close>




subsection \<open>Flat shading\<close>

text \<open>
  Claim C3, as the code has it. The brightness handed to \<^verbatim>\<open>draw_triangle_flat\<close> is
  \<open>ambient + diffuse * intensity\<close> capped at 1, where \<open>diffuse\<close> is the negative dot
  product of the face normal and the light direction floored at 0. It never exceeds 1,
  and it is non-negative whenever the ambient term and the intensity are.
\<close>

theorem flat_shading_brightness:
  assumes "mesh_face_fate ctx mesh f = Rasterized p0 p1 p2 b"
  shows "b = min 1 (ambient (ctx_light ctx) +
                   max 0 (- vec3_dot (face_normal mesh f) (direction (ctx_light ctx))) *
                   intensity (ctx_light ctx)) \<and>
         b \<le> 1 \<and>
         (0 \<le> ambient (ctx_light ctx) \<and> 0 \<le> intensity (ctx_light ctx) \<longrightarrow> 0 \<le> b)"
proof -
  from assms have b: "b = flat_brightness ctx mesh f"
    by (simp add: mesh_face_fate_unfold split: if_splits)
  have "0 \<le> max 0 (- vec3_dot (face_normal mesh f) (direction (ctx_light ctx))) *
            intensity (ctx_light ctx)"
    if "0 \<le> intensity (ctx_light ctx)"
    using that by simp
  then show ?thesis
    unfolding b flat_brightness_def by auto
qed

theorem flat_shading_brightness_witness:
  "mesh_face_fate unit_ctx front_mesh tri_face =
     Rasterized (vec3_create 1 1 0) (vec3_create 2 1 0) (vec3_create 1 0 0) 1 \<and>
   0 \<le> ambient (ctx_light unit_ctx) \<and> 0 \<le> intensity (ctx_light unit_ctx) \<and>
   (1::real) = min 1 (ambient (ctx_light unit_ctx) +
                   max 0 (- vec3_dot (face_normal front_mesh tri_face)
                                     (direction (ctx_light unit_ctx))) *
                   intensity (ctx_light unit_ctx))"
  using flat_shading_brightness [OF fate_front] fate_front
  by (simp add: unit_ctx_def lit_ctx_fields)

text \<open>
  The claim as the specification states it (brightness clamped to the interval from 0
  to 1 for all light parameters) fails for a negative ambient term: the brightness handed
  to the pixel stage is \<open>- 1 / 2\<close>.
\<close>

theorem flat_shading_counterexample:
  "mesh_face_fate dark_ctx front_mesh tri_face =
     Rasterized (vec3_create 1 1 0) (vec3_create 2 1 0) (vec3_create 1 0 0) (- 1 / 2)"
  by (rule fate_dark)

subsection \<open>Null and empty meshes\<close>

text \<open>
  Claim C9. Drawing a \<^verbatim>\<open>NULL\<close> mesh, or a mesh whose \<^verbatim>\<open>face_count\<close> is 0, in the
  fill path or in the wireframe path, returns with the render context and the frame
  buffer unchanged.
\<close>

theorem draw_null_or_empty_mesh:
  assumes "case mo of None \<Rightarrow> True | Some mesh \<Rightarrow> face_count mesh = 0"
  shows "render3d_draw_mesh s mo = s \<and> render3d_draw_mesh_wireframe fuel s mo = Some s"
  using assms
  by (simp add: render3d_draw_mesh_def render3d_draw_mesh_wireframe_def split: option.splits)

theorem draw_null_or_empty_mesh_witness:
  "face_count empty_mesh = 0 \<and>
   render3d_draw_mesh (unit_ctx, ssd1306_clear) (Some empty_mesh) = (unit_ctx, ssd1306_clear) \<and>
   render3d_draw_mesh_wireframe 0 (unit_ctx, ssd1306_clear) (Some empty_mesh) =
     Some (unit_ctx, ssd1306_clear) \<and>
   render3d_draw_mesh (unit_ctx, ssd1306_clear) None = (unit_ctx, ssd1306_clear) \<and>
   render3d_draw_mesh_wireframe 0 (unit_ctx, ssd1306_clear) None = Some (unit_ctx, ssd1306_clear)"
proof -
  have e: "face_count empty_mesh = 0"
    by (simp add: empty_mesh_def)
  show ?thesis
    using draw_null_or_empty_mesh [of "Some empty_mesh" "(unit_ctx, ssd1306_clear)" 0]
      draw_null_or_empty_mesh [of None "(unit_ctx, ssd1306_clear)" 0] e
    by simp
qed


subsection \<open>The sphere builder\<close>

lemma sphere_slice_loop_snd:
  "snd (sphere_slice_loop ring_r h slices s (vs, vi)) = vi + max 0 (slices - s)"
proof (induction ring_r h slices s "(vs, vi)" arbitrary: vs vi rule: sphere_slice_loop.induct)
  case (1 ring_r h slices s vs vi)
  show ?case
  proof (cases "s < slices")
    case True
    with 1 show ?thesis
      by (subst sphere_slice_loop.simps) (simp add: Let_def)
  next
    case False
    then show ?thesis
      by (subst sphere_slice_loop.simps) simp
  qed
qed

lemma sphere_ring_loop_snd:
  "0 \<le> slices \<Longrightarrow>
   snd (sphere_ring_loop radius rings slices r st) = snd st + max 0 (rings - r) * slices"
proof (induction radius rings slices r st rule: sphere_ring_loop.induct)
  case (1 radius rings slices r st)
  obtain vs vi where st: "st = (vs, vi)" by (cases st)
  show ?case
  proof (cases "r < rings")
    case True
    with 1 show ?thesis
      by (subst sphere_ring_loop.simps)
         (simp add: Let_def st sphere_slice_loop_snd max_def algebra_simps)
  next
    case False
    then show ?thesis
      by (subst sphere_ring_loop.simps) simp
  qed
qed

lemma sphere_top_loop_snd:
  "snd (sphere_top_loop slices s (fs, fi)) = fi + max 0 (slices - s)"
proof (induction slices s "(fs, fi)" arbitrary: fs fi rule: sphere_top_loop.induct)
  case (1 slices s fs fi)
  show ?case
  proof (cases "s < slices")
    case True
    with 1 show ?thesis
      by (subst sphere_top_loop.simps) simp
  next
    case False
    then show ?thesis
      by (subst sphere_top_loop.simps) simp
  qed
qed

lemma sphere_bottom_loop_snd:
  "snd (sphere_bottom_loop slices last_ring bottom s (fs, fi)) = fi + max 0 (slices - s)"
proof (induction slices last_ring bottom s "(fs, fi)" arbitrary: fs fi
        rule: sphere_bottom_loop.induct)
  case (1 slices last_ring bottom s fs fi)
  show ?case
  proof (cases "s < slices")
    case True
    with 1 show ?thesis
      by (subst sphere_bottom_loop.simps) simp
  next
    case False
    then show ?thesis
      by (subst sphere_bottom_loop.simps) simp
  qed
qed

lemma sphere_band_loop_snd:
  "snd (sphere_band_loop slices ring_start next_ring s (fs, fi)) = fi + 2 * max 0 (slices - s)"
proof (induction slices ring_start next_ring s "(fs, fi)" arbitrary: fs fi
        rule: sphere_band_loop.induct)
  case (1 slices ring_start next_ring s fs fi)
  show ?case
  proof (cases "s < slices")
    case True
    with 1 show ?thesis
      by (subst sphere_band_loop.simps) (simp add: Let_def)
  next
    case False
    then show ?thesis
      by (subst sphere_band_loop.simps) simp
  qed
qed

lemma sphere_middle_loop_snd:
  "0 \<le> slices \<Longrightarrow>
   snd (sphere_middle_loop rings slices r st) = snd st + max 0 (rings - 2 - r) * (2 * slices)"
proof (induction rings slices r st rule: sphere_middle_loop.induct)
  case (1 rings slices r st)
  obtain fs fi where st: "st = (fs, fi)" by (cases st)
  show ?case
  proof (cases "r < rings - 2")
    case True
    with 1 show ?thesis
      by (subst sphere_middle_loop.simps)
         (simp add: Let_def st sphere_band_loop_snd max_def algebra_simps)
  next
    case False
    then show ?thesis
      by (subst sphere_middle_loop.simps) simp
  qed
qed

lemma mesh_calculate_normals_counts:
  "vertex_count (mesh_calculate_normals m) = vertex_count m"
  "face_count (mesh_calculate_normals m) = face_count m"
  "vertices (mesh_calculate_normals m) = vertices m"
  "faces (mesh_calculate_normals m) = faces m"
  by (simp_all add: mesh_calculate_normals_def Let_def)

lemma uint_u16_of_int: "0 \<le> k \<Longrightarrow> k < 65536 \<Longrightarrow> uint (word_of_int k :: u16) = k"
  by (simp add: uint_word_of_int_eq take_bit_int_eq_self)

lemma sphere_counts_clamped:
  assumes "4 \<le> n" "n \<le> 16"
  shows "\<exists>m. mesh_create_sphere True radius n = Some m \<and>
             uint (vertex_count m) = (n - 1) * (2 * n) + 2 \<and>
             uint (face_count m) = (n - 2) * (2 * n) * 2 + (2 * n) * 2"
proof -
  define slices where "slices = n * 2"
  have sl: "0 \<le> slices" "slices \<le> 32" using assms by (simp_all add: slices_def)
  have b1: "(n - 1) * slices \<le> 15 * 32"
    using assms sl by (intro mult_mono) simp_all
  have b2: "(n - 2) * slices \<le> 14 * 32"
    using assms sl by (intro mult_mono) simp_all
  have p1: "0 \<le> (n - 1) * slices" "0 \<le> (n - 2) * slices"
    using assms sl by simp_all
  have v: "uint (word_of_int ((n - 1) * slices + 2) :: u16) = (n - 1) * slices + 2"
    using b1 p1 by (intro uint_u16_of_int) simp_all
  have f: "uint (word_of_int ((n - 2) * slices * 2 + slices * 2) :: u16) =
           (n - 2) * slices * 2 + slices * 2"
    using b2 p1 sl by (intro uint_u16_of_int) simp_all
  have vi: "snd (sphere_ring_loop radius n slices 1 st) = snd st + (n - 1) * slices" for st
    using assms sl by (simp add: sphere_ring_loop_snd max_def)
  have fi1: "snd (sphere_top_loop slices 0 (fs, 0)) = slices" for fs
    using sl by (simp add: sphere_top_loop_snd max_def)
  have fi2: "snd (sphere_middle_loop n slices 0 st) = snd st + (n - 2) * (2 * slices)" for st
    using assms sl by (simp add: sphere_middle_loop_snd max_def)
  have fi3: "snd (sphere_bottom_loop slices lr bt 0 st) = snd st + slices" for lr bt st
    using sl by (cases st) (simp add: sphere_bottom_loop_snd max_def)
  have vv: "1 + (n - 1) * slices + 1 = (n - 1) * slices + 2" by simp
  have ff: "slices + (n - 2) * (2 * slices) + slices = (n - 2) * slices * 2 + slices * 2"
    by (simp add: algebra_simps)
  have "mesh_create_sphere True radius n \<noteq> None"
    using assms by (simp add: mesh_create_sphere_def mesh_create_def Let_def case_prod_beta)
  then obtain m where m: "mesh_create_sphere True radius n = Some m" by auto
  have "vertex_count m = word_of_int ((n - 1) * slices + 2)"
    using m assms
    by (auto simp add: mesh_create_sphere_def mesh_create_def Let_def case_prod_beta
          mesh_calculate_normals_counts slices_def [symmetric] vi vv)
  moreover have "face_count m = word_of_int ((n - 2) * slices * 2 + slices * 2)"
    using m assms
    by (auto simp add: mesh_create_sphere_def mesh_create_def Let_def case_prod_beta
          mesh_calculate_normals_counts slices_def [symmetric] fi1 fi2 fi3 ff)
  ultimately show ?thesis
    using m v f by (simp add: slices_def mult.commute)
qed

lemma mesh_create_sphere_clamp:
  "mesh_create_sphere alloc_ok radius s = mesh_create_sphere alloc_ok radius (clamp_segments s)"
proof -
  have "(if (if s < 4 then 4 else s) > 16 then 16 else (if s < 4 then 4 else s)) =
        (if (if clamp_segments s < 4 then 4 else clamp_segments s) > 16 then 16
         else (if clamp_segments s < 4 then 4 else clamp_segments s))"
    by (simp add: clamp_segments_def)
  then show ?thesis
    unfolding mesh_create_sphere_def Let_def by (simp only:)
qed

text \<open>
  Claim C6. For every radius and every integer segment count, \<^verbatim>\<open>mesh_create_sphere\<close>
  behaves as on the count clamped into the interval from 4 to 16 (so 100 gives the mesh
  of 16), and when the allocation succeeds the mesh has \<open>(rings - 1) * slices + 2\<close>
  vertices and \<open>(rings - 2) * slices * 2 + slices * 2\<close> faces, with \<open>rings\<close> the clamped
  count and \<open>slices\<close> twice that.
\<close>

theorem sphere_builder_counts:
  "mesh_create_sphere alloc_ok radius s = mesh_create_sphere alloc_ok radius (clamp_segments s) \<and>
   4 \<le> clamp_segments s \<and> clamp_segments s \<le> 16 \<and>
   mesh_create_sphere alloc_ok radius 100 = mesh_create_sphere alloc_ok radius 16 \<and>
   (\<exists>m. mesh_create_sphere True radius s = Some m \<and>
        uint (vertex_count m) = (clamp_segments s - 1) * (2 * clamp_segments s) + 2 \<and>
        uint (face_count m) =
          (clamp_segments s - 2) * (2 * clamp_segments s) * 2 + (2 * clamp_segments s) * 2)"
proof -
  have c: "4 \<le> clamp_segments s" "clamp_segments s \<le> 16"
    by (simp_all add: clamp_segments_def)
  have "clamp_segments 100 = 16" "clamp_segments 16 = 16"
    by (simp_all add: clamp_segments_def)
  then have h: "mesh_create_sphere alloc_ok radius 100 = mesh_create_sphere alloc_ok radius 16"
    using mesh_create_sphere_clamp [of alloc_ok radius 100] by simp
  from sphere_counts_clamped [OF c, of radius]
  have "\<exists>m. mesh_create_sphere True radius s = Some m \<and>
        uint (vertex_count m) = (clamp_segments s - 1) * (2 * clamp_segments s) + 2 \<and>
        uint (face_count m) =
          (clamp_segments s - 2) * (2 * clamp_segments s) * 2 + (2 * clamp_segments s) * 2"
    by (simp only: mesh_create_sphere_clamp [of True radius s, symmetric])
  with c h mesh_create_sphere_clamp [of alloc_ok radius s] show ?thesis
    by blast
qed

theorem sphere_builder_counts_witness:
  "\<exists>m. mesh_create_sphere True 1 100 = Some m \<and> uint (vertex_count m) = 482 \<and>
       uint (face_count m) = 960"
proof -
  have c: "clamp_segments 100 = 16"
    by (simp add: clamp_segments_def)
  from sphere_builder_counts [of True 1 100]
  obtain m where "mesh_create_sphere True 1 100 = Some m"
    and "uint (vertex_count m) = (clamp_segments 100 - 1) * (2 * clamp_segments 100) + 2"
    and "uint (face_count m) =
           (clamp_segments 100 - 2) * (2 * clamp_segments 100) * 2 + (2 * clamp_segments 100) * 2"
    by blast
  then show ?thesis
    unfolding c by (intro exI [of _ m]) simp
qed


subsection \<open>The OBJ loader\<close>

lemmas char_eval = peek_def isspace_def isdigit_def skip_ws_def next_line_def strip_sign_def
  digits_value_def

lemma count_triangle: "count_elements (c_string triangle_obj) = Some (3, 1)"
  by (simp add: count_elements_def c_string_def triangle_obj_def count_loop.simps
        count_face_verts.simps char_eval parse_face_index_def parse_int_def strtol10_def Let_def)

lemma parse_triangle:
  "parse_loop col 1 (c_string triangle_obj)
     (replicate 4 (vec3_create 0 0 0), 0, replicate 2 zero_face, 0) =
   Some ([vec3_create 0 0 0, vec3_create 1 0 0, vec3_create 0 1 0, vec3_create 0 0 0], 3,
         [\<lparr>face_v0 = 0, face_v1 = 1, face_v2 = 2, face_color = col\<rparr>, zero_face], 1)"
  by (simp add: c_string_def triangle_obj_def parse_loop.simps face_index_loop.simps
        fan_loop.simps char_eval parse_face_index_def parse_int_def strtol10_def Let_def
        parse_float_def strtof_def pow10_def vec3_create_def eval_nat_numeral)

lemma dec_int_digit: "0 \<le> i \<Longrightarrow> i < 10 \<Longrightarrow> dec_int i = [digit_char (nat i)]"
  by (simp add: dec_int_def dec_nat.simps)

lemma load_triangle:
  "obj_load_from_string True e (Some triangle_obj) col =
     Some (Some (mesh_calculate_normals
                   \<lparr>vertices = [vec3_create 0 0 0, vec3_create 1 0 0, vec3_create 0 1 0,
                                 vec3_create 0 0 0],
                    normals = replicate 4 (vec3_create 0 0 0),
                    faces = [\<lparr>face_v0 = 0, face_v1 = 1, face_v2 = 2, face_color = col\<rparr>,
                             zero_face],
                    vertex_count = 3, normal_count = 0, face_count = 1,
                    position = vec3_create 0 0 0, rotation = vec3_create 0 0 0,
                    scale = vec3_create 1 1 1\<rparr>),
           ''OK: 3 verts, 1 faces'')"
proof -
  have m: "mesh_create True 4 2 =
           Some \<lparr>vertices = replicate 4 (vec3_create 0 0 0),
                 normals = replicate 4 (vec3_create 0 0 0),
                 faces = replicate 2 zero_face,
                 vertex_count = 0, normal_count = 0, face_count = 0,
                 position = vec3_create 0 0 0, rotation = vec3_create 0 0 0,
                 scale = vec3_create 1 1 1\<rparr>"
    by (simp add: mesh_create_def)
  show ?thesis
    unfolding obj_load_from_string_def
    by (simp add: count_triangle MAX_VERTICES_def MAX_FACES_def m parse_triangle
          dec_int_digit snprintf128_def digit_char_def)
qed

text \<open>
  Claim C7. On the text of the four lines \<^verbatim>\<open>v 0 0 0\<close>, \<^verbatim>\<open>v 1 0 0\<close>, \<^verbatim>\<open>v 0 1 0\<close>,
  \<^verbatim>\<open>f 1 2 3\<close>, each ended by a newline, \<^verbatim>\<open>obj_load_from_string\<close> returns (when the
  mesh can be allocated) a mesh with 3 vertices and 1 face whose vertex indices are 0, 1
  and 2.
\<close>

theorem obj_load_triangle:
  "\<exists>m. obj_load_from_string True e (Some triangle_obj) col =
          Some (Some m, ''OK: 3 verts, 1 faces'') \<and>
       vertex_count m = 3 \<and> face_count m = 1 \<and>
       take 3 (vertices m) = [vec3_create 0 0 0, vec3_create 1 0 0, vec3_create 0 1 0] \<and>
       face_v0 (faces m ! 0) = 0 \<and> face_v1 (faces m ! 0) = 1 \<and> face_v2 (faces m ! 0) = 2 \<and>
       face_color (faces m ! 0) = col"
  by (simp add: load_triangle mesh_calculate_normals_def Let_def)

lemma count_loop_v_lines:
  "count_loop (v_lines n @ rest) verts n_faces = count_loop rest (verts + int n) n_faces"
proof (induction n arbitrary: verts)
  case 0
  then show ?case by (simp add: v_lines_def)
next
  case (Suc n)
  have "count_loop (v_lines (Suc n) @ rest) verts n_faces =
        count_loop (v_lines n @ rest) (verts + 1) n_faces"
    by (subst count_loop.simps) (simp add: v_lines_def char_eval Let_def)
  with Suc show ?case by (simp add: add.assoc)
qed

lemma c_string_v_lines: "c_string (v_lines n) = v_lines n"
  by (induction n) (simp_all add: v_lines_def c_string_def)

lemma count_v_lines: "count_elements (c_string (v_lines n)) = Some (int n, 0)"
  using count_loop_v_lines [of n "[]" 0 0]
  by (simp add: c_string_v_lines count_elements_def count_loop.simps [of "[]"] peek_def)

lemma success_message:
  "is_success_message (snprintf128 (CHR ''O'' # CHR ''K'' # CHR '':'' # CHR '' '' # rest))"
  by (simp add: is_success_message_def snprintf128_def eval_nat_numeral)

lemma failure_message:
  "c \<noteq> CHR ''O'' \<Longrightarrow> \<not> is_success_message (snprintf128 (c # rest))"
  by (simp add: is_success_message_def snprintf128_def eval_nat_numeral)

text \<open>
  The capacity check, on the texts on which \<^verbatim>\<open>count_elements\<close> returns. When the
  counted vertices exceed \<^verbatim>\<open>MAX_VERTICES\<close> or the counted triangles exceed
  \<^verbatim>\<open>MAX_FACES\<close>, \<^verbatim>\<open>obj_load_from_string\<close> returns \<^verbatim>\<open>NULL\<close> and leaves a message in
  \<^verbatim>\<open>error_msg\<close> that is not a success message, whatever the buffer held before;
  whenever it returns a mesh, the buffer holds a success message. This says nothing of
  the texts on which the counting loop does not return.
\<close>

lemma obj_load_capacity:
  "(count_elements (c_string text) = Some (v, f) \<and> (MAX_VERTICES < v \<or> MAX_FACES < f) \<longrightarrow>
      (\<exists>msg. obj_load_from_string alloc_ok e (Some text) col = Some (None, msg) \<and>
             obj_get_error msg = msg \<and> \<not> is_success_message msg \<and>
             (v \<noteq> 0 \<longrightarrow>
                msg = snprintf128 (''Model too large: '' @ dec_int v @ '' verts, '' @
                        dec_int f @ '' faces (max '' @ dec_int MAX_VERTICES @ ''/'' @
                        dec_int MAX_FACES @ '')'')))) \<and>
   (obj_load_from_string alloc_ok e obj_data col = Some (Some m, msg') \<longrightarrow>
      obj_get_error msg' = msg' \<and> is_success_message msg')"
proof (intro conjI impI)
  assume a: "count_elements (c_string text) = Some (v, f) \<and> (MAX_VERTICES < v \<or> MAX_FACES < f)"
  show "\<exists>msg. obj_load_from_string alloc_ok e (Some text) col = Some (None, msg) \<and>
             obj_get_error msg = msg \<and> \<not> is_success_message msg \<and>
             (v \<noteq> 0 \<longrightarrow>
                msg = snprintf128 (''Model too large: '' @ dec_int v @ '' verts, '' @
                        dec_int f @ '' faces (max '' @ dec_int MAX_VERTICES @ ''/'' @
                        dec_int MAX_FACES @ '')''))"
  proof (cases "v = 0")
    case True
    with a show ?thesis
      by (simp add: obj_load_from_string_def obj_get_error_def failure_message)
  next
    case False
    with a show ?thesis
      by (auto simp add: obj_load_from_string_def obj_get_error_def failure_message)
  qed
next
  assume "obj_load_from_string alloc_ok e obj_data col = Some (Some m, msg')"
  then have "is_success_message msg'"
    by (auto simp add: obj_load_from_string_def success_message
          split: option.splits if_splits prod.splits)
  then show "obj_get_error msg' = msg'" "is_success_message msg'"
    by (simp_all add: obj_get_error_def)
qed

lemma obj_load_capacity_example:
  "count_elements (c_string (v_lines 129)) = Some (129, 0) \<and> MAX_VERTICES < 129 \<and>
   (\<exists>msg. obj_load_from_string True [] (Some (v_lines 129)) white = Some (None, msg) \<and>
          \<not> is_success_message msg) \<and>
   (\<exists>m. obj_load_from_string True [] (Some triangle_obj) white =
          Some (Some m, ''OK: 3 verts, 1 faces'')) \<and>
   is_success_message ''OK: 3 verts, 1 faces''"
proof -
  have c: "count_elements (c_string (v_lines 129)) = Some (129, 0)"
    using count_v_lines [of 129] by simp
  have m: "MAX_VERTICES < 129"
    by (simp add: MAX_VERTICES_def)
  from obj_load_capacity [of "v_lines 129" 129 0 True "[]" white] c m
  have 1: "\<exists>msg. obj_load_from_string True [] (Some (v_lines 129)) white = Some (None, msg) \<and>
          \<not> is_success_message msg"
    by blast
  from load_triangle [of "[]" white] obtain m where
    l: "obj_load_from_string True [] (Some triangle_obj) white =
          Some (Some m, ''OK: 3 verts, 1 faces'')"
    by blast
  with obj_load_capacity [of _ _ _ True "[]" white "Some triangle_obj" m "''OK: 3 verts, 1 faces''"]
  have "is_success_message ''OK: 3 verts, 1 faces''"
    by blast
  with c m 1 l show ?thesis by blast
qed

text \<open>
  A face line with a character that starts no index. \<^verbatim>\<open>strtol\<close> converts nothing
  at a letter and leaves the position where it was, so the inner loop of
  \<^verbatim>\<open>count_elements\<close> (and of the parser after it) makes no progress.
\<close>

lemma parse_face_index_letter:
  "peek line = CHR ''a'' \<Longrightarrow> parse_face_index line = (0, line)"
  by (cases line) (simp_all add: parse_face_index_def parse_int_def strtol10_def char_eval Let_def)

lemma count_face_verts_letter_aux:
  "count_face_verts line n = Some z \<Longrightarrow> peek line \<noteq> CHR ''a''"
proof (induction rule: count_face_verts.raw_induct [rotated 1, consumes 1])
  case (1 count_face_verts' line n z)
  show ?case
  proof
    assume a: "peek line = CHR ''a''"
    then have "skip_ws line = line"
      by (cases line) (simp_all add: char_eval)
    with a "1.hyps" have "count_face_verts' line (n + 1) = Some z"
      by (simp add: parse_face_index_letter Let_def)
    from "1.IH" [OF this] a show False by simp
  qed
qed

lemma count_face_verts_letter:
  "peek line = CHR ''a'' \<Longrightarrow> count_face_verts line n = None"
  using count_face_verts_letter_aux [of line n] by (cases "count_face_verts line n") auto

lemma count_loop_face_letter: "count_loop ''f a\<newline>'' verts n_faces = None"
proof -
  have "count_face_verts ''a\<newline>'' 0 = None"
    by (rule count_face_verts_letter) (simp add: peek_def)
  then show ?thesis
    by (subst count_loop.simps) (simp add: char_eval Let_def)
qed

lemma c_string_v_lines_append: "c_string (v_lines n @ rest) = v_lines n @ c_string rest"
  by (induction n) (simp_all add: v_lines_def c_string_def)

text \<open>
  Claim C8. The text of 129 vertex lines followed by the face line \<^verbatim>\<open>f a\<close> has 129
  counted vertices, more than \<^verbatim>\<open>MAX_VERTICES\<close>, when \<^verbatim>\<open>count_elements\<close> reaches the
  face line (the counting loop is then at that line with \<^verbatim>\<open>*verts\<close> equal to 129); there
  the inner loop of \<^verbatim>\<open>count_elements\<close> never advances past the letter, and
  \<^verbatim>\<open>obj_load_from_string\<close> does not return: no \<^verbatim>\<open>NULL\<close> comes back and no message is
  written.
\<close>

theorem obj_load_over_capacity_hangs:
  "count_loop (c_string (v_lines 129 @ ''f a\<newline>'')) 0 0 = count_loop ''f a\<newline>'' 129 0 \<and>
   MAX_VERTICES < 129 \<and>
   count_elements (c_string (v_lines 129 @ ''f a\<newline>'')) = None \<and>
   obj_load_from_string alloc_ok e (Some (v_lines 129 @ ''f a\<newline>'')) col = None"
proof -
  have c: "c_string (v_lines 129 @ ''f a\<newline>'') = v_lines 129 @ ''f a\<newline>''"
    by (simp add: c_string_v_lines_append) (simp add: c_string_def)
  have l: "count_loop (v_lines 129 @ ''f a\<newline>'') 0 0 = count_loop ''f a\<newline>'' 129 0"
    using count_loop_v_lines [of 129 "''f a\<newline>''" 0 0] by simp
  have n: "count_elements (c_string (v_lines 129 @ ''f a\<newline>'')) = None"
    by (simp only: count_elements_def c l count_loop_face_letter)
  show ?thesis
    by (simp add: obj_load_from_string_def n) (simp add: c l MAX_VERTICES_def)
qed

subsection \<open>The depth test\<close>

lemma apply_fragment_dims:
  "width (fst (apply_fragment br f s)) = width (fst s)"
  "height (fst (apply_fragment br f s)) = height (fst s)"
  by (simp_all add: apply_fragment_def Let_def split: prod.splits)

lemma fold_fragment_dims:
  "width (fst (fold (apply_fragment br) fs s)) = width (fst s) \<and>
   height (fst (fold (apply_fragment br) fs s)) = height (fst s)"
  by (induction fs arbitrary: s) (simp_all add: apply_fragment_dims)

lemma scanline_loop_fold:
  "scanline_loop py ix2 dz br px z s = fold (apply_fragment br) (scan_fragments py ix2 dz px z) s"
proof (induction py ix2 dz br px z s rule: scanline_loop.induct)
  case (1 py ix2 dz br px z s)
  show ?case
  proof (cases "px \<le> ix2")
    case True
    define s' where "s' = apply_fragment br (px, py, z) s"
    have s'_eq: "s' = (if z < zbuffer (fst s) (py * width (fst s) + px)
                       then (fst s\<lparr>zbuffer := (zbuffer (fst s))(py * width (fst s) + px := z)\<rparr>,
                             ssd1306_set_pixel px py (mono_pixel px py br) (snd s))
                       else s)"
      by (simp add: s'_def apply_fragment_def Let_def)
    have IH: "scanline_loop py ix2 dz br (px + 1) (z + dz) s' =
              fold (apply_fragment br) (scan_fragments py ix2 dz (px + 1) (z + dz)) s'"
      by (rule 1 [OF True refl refl s'_eq])
    have step: "scanline_loop py ix2 dz br px z s = scanline_loop py ix2 dz br (px + 1) (z + dz) s'"
      using True by (subst scanline_loop.simps) (simp add: s'_eq Let_def)
    have frag: "scan_fragments py ix2 dz px z = (px, py, z) # scan_fragments py ix2 dz (px + 1) (z + dz)"
      using True by (subst scan_fragments.simps) simp
    have "fold (apply_fragment br) (scan_fragments py ix2 dz px z) s =
          fold (apply_fragment br) (scan_fragments py ix2 dz (px + 1) (z + dz)) s'"
      by (simp add: frag s'_def)
    with step IH show ?thesis
      by simp
  next
    case False
    then show ?thesis
      by (subst scanline_loop.simps, subst scan_fragments.simps) simp
  qed
qed

lemma draw_scanline_fold:
  "draw_scanline py x1 x2 z1 z2 br col s =
     fold (apply_fragment br)
       (scanline_fragments (width (fst s)) (height (fst s)) py x1 x2 z1 z2) s"
  by (simp add: draw_scanline_def scanline_fragments_def clipped_span_def Let_def
        scanline_loop_fold case_prod_beta)

lemma triangle_loop_fold:
  "triangle_loop p0 p1 p2 it iu il br col iy2 py s =
     fold (apply_fragment br)
       (triangle_loop_fragments (width (fst s)) (height (fst s)) p0 p1 p2 it iu il iy2 py) s"
proof (induction p0 p1 p2 it iu il br col iy2 py s rule: triangle_loop.induct)
  case (1 p0 p1 p2 it iu il br col iy2 py s)
  show ?case
  proof (cases "py \<le> iy2")
    case True
    define fy where "fy = real_of_int py + 1 / 2"
    define t_long where "t_long = (fy - vy p0) * it"
    define x_long where "x_long = vx p0 + (vx p2 - vx p0) * t_long"
    define z_long where "z_long = vz p0 + (vz p2 - vz p0) * t_long"
    define sh where "sh = (if fy < vy p1 then
                 let t_short = (fy - vy p0) * iu
                 in (vx p0 + (vx p1 - vx p0) * t_short, vz p0 + (vz p1 - vz p0) * t_short)
               else
                 let t_short = (fy - vy p1) * il
                 in (vx p1 + (vx p2 - vx p1) * t_short, vz p1 + (vz p2 - vz p1) * t_short))"
    define s' where "s' = draw_scanline py x_long (fst sh) z_long (snd sh) br col s"
    have IH: "triangle_loop p0 p1 p2 it iu il br col iy2 (py + 1) s' =
              fold (apply_fragment br)
                (triangle_loop_fragments (width (fst s')) (height (fst s')) p0 p1 p2 it iu il iy2
                   (py + 1)) s'"
      unfolding s'_def
      by (rule 1 [OF True fy_def t_long_def x_long_def z_long_def sh_def prod.collapse])
    have dims: "width (fst s') = width (fst s)" "height (fst s') = height (fst s)"
      by (simp_all add: s'_def draw_scanline_fold fold_fragment_dims)
    have step: "triangle_loop p0 p1 p2 it iu il br col iy2 py s =
                triangle_loop p0 p1 p2 it iu il br col iy2 (py + 1) s'"
      using True
      by (subst triangle_loop.simps)
         (simp add: Let_def case_prod_beta s'_def sh_def x_long_def z_long_def t_long_def fy_def)
    have frag: "triangle_loop_fragments (width (fst s)) (height (fst s)) p0 p1 p2 it iu il iy2 py =
                scanline_fragments (width (fst s)) (height (fst s)) py x_long (fst sh) z_long (snd sh) @
                triangle_loop_fragments (width (fst s)) (height (fst s)) p0 p1 p2 it iu il iy2 (py + 1)"
      using True
      by (subst triangle_loop_fragments.simps)
         (simp add: row_fragments_def Let_def case_prod_beta sh_def x_long_def z_long_def
            t_long_def fy_def)
    have "fold (apply_fragment br)
            (triangle_loop_fragments (width (fst s)) (height (fst s)) p0 p1 p2 it iu il iy2 py) s =
          fold (apply_fragment br)
            (triangle_loop_fragments (width (fst s)) (height (fst s)) p0 p1 p2 it iu il iy2 (py + 1)) s'"
      by (simp add: frag s'_def draw_scanline_fold)
    with step IH dims show ?thesis
      by simp
  next
    case False
    then show ?thesis
      by (subst triangle_loop.simps, subst triangle_loop_fragments.simps) simp
  qed
qed


lemma draw_triangle_flat_fold:
  "draw_triangle_flat q0 q1 q2 br col s =
     fold (apply_fragment br) (triangle_fragments (width (fst s)) (height (fst s)) q0 q1 q2) s"
  by (simp add: draw_triangle_flat_def triangle_fragments_def Let_def triangle_loop_fold
        split: prod.splits)

lemma get_pixel_bit:
  "ssd1306_get_pixel px py fb =
     (on_display px py \<and> bit (fb (py div 8 * SSD1306_WIDTH + px)) (nat (py mod 8)))"
  by (auto simp add: ssd1306_get_pixel_def on_display_def Let_def bit_iff_and_push_bit_not_eq_0)

lemma row_major_inj:
  fixes w :: int
  assumes "0 \<le> a" "a < w" "0 \<le> b" "b < w" "r * w + a = q * w + b"
  shows "a = b \<and> r = q"
proof -
  have "(r * w + a) mod w = a" "(q * w + b) mod w = b"
    using assms(1-4) by simp_all
  with assms(5) have ab: "a = b" by metis
  with assms(5) have "r * w = q * w" by simp
  moreover have "w \<noteq> 0" using assms by auto
  ultimately show ?thesis using ab by simp
qed

lemma display_index_inj:
  assumes "on_display px py" "on_display qx qy"
    and "py div 8 * SSD1306_WIDTH + px = qy div 8 * SSD1306_WIDTH + qx" "py mod 8 = qy mod 8"
  shows "px = qx \<and> py = qy"
proof -
  from assms(1,2) have b: "0 \<le> px" "px < SSD1306_WIDTH" "0 \<le> qx" "qx < SSD1306_WIDTH"
    by (simp_all add: on_display_def)
  from row_major_inj [OF b assms(3)] have "px = qx" "py div 8 = qy div 8" by simp_all
  moreover have "py = py div 8 * 8 + py mod 8" "qy = qy div 8 * 8 + qy mod 8" by simp_all
  ultimately show ?thesis using assms(4) by simp
qed


lemma set_pixel_off_display: "\<not> on_display qx qy \<Longrightarrow> ssd1306_set_pixel qx qy v fb = fb"
  by (auto simp add: ssd1306_set_pixel_def on_display_def)

lemma set_pixel_on_display:
  "on_display qx qy \<Longrightarrow>
   ssd1306_set_pixel qx qy v fb =
     fb(qy div 8 * SSD1306_WIDTH + qx :=
          (if v then fb (qy div 8 * SSD1306_WIDTH + qx) OR push_bit (nat (qy mod 8)) 1
           else fb (qy div 8 * SSD1306_WIDTH + qx) AND NOT (push_bit (nat (qy mod 8)) 1)))"
  by (auto simp add: ssd1306_set_pixel_def on_display_def Let_def)

lemma bit_set_clear_u8:
  fixes w :: u8
  assumes "n < 8" "m < 8"
  shows "bit (if v then w OR push_bit n 1 else w AND NOT (push_bit n 1)) m =
         (if m = n then v else bit w m)"
  using assms by (auto simp add: bit_simps)


lemma get_set_pixel:
  "ssd1306_get_pixel px py (ssd1306_set_pixel qx qy v fb) =
     (if px = qx \<and> py = qy \<and> on_display px py then v else ssd1306_get_pixel px py fb)"
proof (cases "on_display qx qy")
  case False
  then show ?thesis
    by (auto simp add: set_pixel_off_display)
next
  case q: True
  show ?thesis
  proof (cases "on_display px py")
    case False
    then show ?thesis
      by (simp add: get_pixel_bit)
  next
    case p: True
    let ?pi = "py div 8 * SSD1306_WIDTH + px" and ?qi = "qy div 8 * SSD1306_WIDTH + qx"
    have m: "nat (qy mod 8) < 8" "nat (py mod 8) < 8" by simp_all
    show ?thesis
    proof (cases "?pi = ?qi")
      case False
      then have "\<not> (px = qx \<and> py = qy)" by auto
      with False p show ?thesis
        by (auto simp add: get_pixel_bit set_pixel_on_display [OF q])
    next
      case True
      have same: "nat (py mod 8) = nat (qy mod 8) \<longleftrightarrow> px = qx \<and> py = qy"
        using display_index_inj [OF p q True] by (auto simp: nat_eq_iff)
      have "ssd1306_get_pixel px py (ssd1306_set_pixel qx qy v fb) =
            bit (if v then fb ?qi OR push_bit (nat (qy mod 8)) 1
                 else fb ?qi AND NOT (push_bit (nat (qy mod 8)) 1)) (nat (py mod 8))"
        using p True by (simp add: get_pixel_bit set_pixel_on_display [OF q])
      also have "\<dots> = (if nat (py mod 8) = nat (qy mod 8) then v else bit (fb ?qi) (nat (py mod 8)))"
        by (rule bit_set_clear_u8 [OF m])
      also have "\<dots> = (if px = qx \<and> py = qy \<and> on_display px py then v
                       else ssd1306_get_pixel px py fb)"
        using p True same by (simp add: get_pixel_bit)
      finally show ?thesis .
    qed
  qed
qed

lemma get_pixel_off_display: "\<not> on_display px py \<Longrightarrow> \<not> ssd1306_get_pixel px py fb"
  by (simp add: get_pixel_bit)

lemma pixel_view_apply:
  assumes "0 \<le> px" "px < width (fst s)" "0 \<le> fst f" "fst f < width (fst s)"
  shows "pixel_view (apply_fragment br f s) px py =
           (if fst f = px \<and> fst (snd f) = py then view_step br px py f (pixel_view s px py)
            else pixel_view s px py)"
proof -
  obtain fx fy z where f: "f = (fx, fy, z)" by (cases f)
  have idx: "py * width (fst s) + px = fy * width (fst s) + fx \<longleftrightarrow> fx = px \<and> fy = py"
    using row_major_inj [of px "width (fst s)" fx py fy] assms by (auto simp: f)
  show ?thesis
    using idx
    by (auto simp add: f pixel_view_def apply_fragment_def Let_def view_step_def get_set_pixel
          get_pixel_off_display)
qed

lemma pixel_view_fold:
  assumes "0 \<le> px" "px < width (fst s)" "in_columns (width (fst s)) fs"
  shows "pixel_view (fold (apply_fragment br) fs s) px py =
           fold (view_step br px py) (fragments_at px py fs) (pixel_view s px py)"
  using assms
proof (induction fs arbitrary: s)
  case Nil
  then show ?case by (simp add: fragments_at_def)
next
  case (Cons f fs)
  have w: "width (fst (apply_fragment br f s)) = width (fst s)"
    by (rule apply_fragment_dims)
  from Cons.prems have f: "0 \<le> fst f" "fst f < width (fst s)" and fs: "in_columns (width (fst s)) fs"
    by (simp_all add: in_columns_def)
  have "pixel_view (fold (apply_fragment br) fs (apply_fragment br f s)) px py =
        fold (view_step br px py) (fragments_at px py fs)
          (pixel_view (apply_fragment br f s) px py)"
    using Cons.IH [of "apply_fragment br f s"] Cons.prems(1,2) fs by (simp add: w)
  then show ?case
    using pixel_view_apply [OF Cons.prems(1,2) f, of br py]
    by (simp add: fragments_at_def)
qed

lemma scan_fragments_at:
  "fragments_at px py (scan_fragments row ix2 dz x0 z) =
     (if py = row \<and> x0 \<le> px \<and> px \<le> ix2 then [(px, row, z + dz * real_of_int (px - x0))]
      else [])"
proof (induction row ix2 dz x0 z rule: scan_fragments.induct)
  case (1 row ix2 dz x0 z)
  show ?case
  proof (cases "x0 \<le> ix2")
    case True
    have "fragments_at px py (scan_fragments row ix2 dz x0 z) =
          fragments_at px py [(x0, row, z)] @
          fragments_at px py (scan_fragments row ix2 dz (x0 + 1) (z + dz))"
      using True by (subst scan_fragments.simps) (simp add: fragments_at_def)
    with 1 [OF True] True show ?thesis
      by (auto simp add: fragments_at_def algebra_simps)
  next
    case False
    then show ?thesis
      by (subst scan_fragments.simps) (auto simp add: fragments_at_def)
  qed
qed

lemma scan_fragments_columns:
  "0 \<le> x0 \<Longrightarrow> ix2 < w \<Longrightarrow> in_columns w (scan_fragments row ix2 dz x0 z)"
proof (induction row ix2 dz x0 z rule: scan_fragments.induct)
  case (1 row ix2 dz x0 z)
  show ?case
  proof (cases "x0 \<le> ix2")
    case True
    with 1 show ?thesis
      by (subst scan_fragments.simps) (simp add: in_columns_def)
  next
    case False
    then show ?thesis
      by (subst scan_fragments.simps) (simp add: in_columns_def)
  qed
qed

lemma clipped_span_bounds:
  "clipped_span w h row x1 x2 z1 z2 = Some (a, b, z, dz) \<Longrightarrow> 0 \<le> a \<and> b < w"
  by (auto simp add: clipped_span_def Let_def case_prod_beta split: if_splits)

lemma scanline_fragments_columns: "in_columns w (scanline_fragments w h row x1 x2 z1 z2)"
proof (cases "clipped_span w h row x1 x2 z1 z2")
  case None
  then show ?thesis by (simp add: scanline_fragments_def in_columns_def)
next
  case (Some sp)
  obtain a b z dz where sp: "sp = (a, b, z, dz)" by (cases sp)
  from clipped_span_bounds [OF Some [unfolded sp]] show ?thesis
    by (simp add: scanline_fragments_def Some sp scan_fragments_columns)
qed

lemma scanline_fragments_at:
  "length (fragments_at px py (scanline_fragments w h row x1 x2 z1 z2)) \<le> Suc 0 \<and>
   (py \<noteq> row \<longrightarrow> fragments_at px py (scanline_fragments w h row x1 x2 z1 z2) = [])"
proof (cases "clipped_span w h row x1 x2 z1 z2")
  case None
  then show ?thesis by (simp add: scanline_fragments_def fragments_at_def)
next
  case (Some sp)
  obtain a b z dz where sp: "sp = (a, b, z, dz)" by (cases sp)
  show ?thesis
    by (simp add: scanline_fragments_def Some sp scan_fragments_at)
qed

lemma row_fragments_props:
  "in_columns w (row_fragments w h p0 p1 p2 it iu il row)"
  "length (fragments_at px py (row_fragments w h p0 p1 p2 it iu il row)) \<le> Suc 0"
  "py \<noteq> row \<Longrightarrow> fragments_at px py (row_fragments w h p0 p1 p2 it iu il row) = []"
  by (simp_all add: row_fragments_def Let_def case_prod_beta scanline_fragments_columns
        scanline_fragments_at)

lemma in_columns_append: "in_columns w (xs @ ys) \<longleftrightarrow> in_columns w xs \<and> in_columns w ys"
  by (simp add: in_columns_def)

lemma fragments_at_append:
  "fragments_at px py (xs @ ys) = fragments_at px py xs @ fragments_at px py ys"
  by (simp add: fragments_at_def)

lemma triangle_loop_fragments_columns:
  "in_columns w (triangle_loop_fragments w h p0 p1 p2 it iu il iy2 y0)"
proof (induction w h p0 p1 p2 it iu il iy2 y0 rule: triangle_loop_fragments.induct)
  case (1 w h p0 p1 p2 it iu il iy2 y0)
  show ?case
  proof (cases "y0 \<le> iy2")
    case True
    with 1 show ?thesis
      by (subst triangle_loop_fragments.simps)
         (simp add: in_columns_append row_fragments_props)
  next
    case False
    then show ?thesis
      by (subst triangle_loop_fragments.simps) (simp add: in_columns_def)
  qed
qed

lemma triangle_loop_fragments_above:
  "py < y0 \<Longrightarrow> fragments_at px py (triangle_loop_fragments w h p0 p1 p2 it iu il iy2 y0) = []"
proof (induction w h p0 p1 p2 it iu il iy2 y0 rule: triangle_loop_fragments.induct)
  case (1 w h p0 p1 p2 it iu il iy2 y0)
  show ?case
  proof (cases "y0 \<le> iy2")
    case True
    with 1 show ?thesis
      by (subst triangle_loop_fragments.simps)
         (simp add: fragments_at_append row_fragments_props)
  next
    case False
    then show ?thesis
      by (subst triangle_loop_fragments.simps) (simp add: fragments_at_def)
  qed
qed

lemma triangle_loop_fragments_at:
  "length (fragments_at px py (triangle_loop_fragments w h p0 p1 p2 it iu il iy2 y0)) \<le> Suc 0"
proof (induction w h p0 p1 p2 it iu il iy2 y0 rule: triangle_loop_fragments.induct)
  case (1 w h p0 p1 p2 it iu il iy2 y0)
  show ?case
  proof (cases "y0 \<le> iy2")
    case True
    show ?thesis
    proof (cases "py = y0")
      case py: True
      have "fragments_at px py (triangle_loop_fragments w h p0 p1 p2 it iu il iy2 (y0 + 1)) = []"
        by (rule triangle_loop_fragments_above) (simp add: py)
      with True show ?thesis
        by (subst triangle_loop_fragments.simps)
           (simp add: fragments_at_append row_fragments_props)
    next
      case False
      with True 1 show ?thesis
        by (subst triangle_loop_fragments.simps)
           (simp add: fragments_at_append row_fragments_props)
    qed
  next
    case False
    then show ?thesis
      by (subst triangle_loop_fragments.simps) (simp add: fragments_at_def)
  qed
qed

lemma triangle_fragments_columns: "in_columns w (triangle_fragments w h q0 q1 q2)"
  by (simp add: triangle_fragments_def Let_def case_prod_beta triangle_loop_fragments_columns)
     (simp add: in_columns_def)

lemma triangle_fragments_at:
  "length (fragments_at px py (triangle_fragments w h q0 q1 q2)) \<le> Suc 0"
  by (simp add: triangle_fragments_def Let_def case_prod_beta triangle_loop_fragments_at)
     (simp add: fragments_at_def)

lemma triangle_depth_Some:
  assumes "triangle_depth w h q0 q1 q2 px py = Some z"
  shows "\<exists>f. fragments_at px py (triangle_fragments w h q0 q1 q2) = [f] \<and> snd (snd f) = z"
proof -
  from assms obtain f fs where
    e: "fragments_at px py (triangle_fragments w h q0 q1 q2) = f # fs" and z: "snd (snd f) = z"
    by (auto simp add: triangle_depth_def split: list.splits)
  from triangle_fragments_at [of px py w h q0 q1 q2] e have "fs = []" by simp
  with e z show ?thesis by simp
qed

lemma triangle_pixel_view:
  assumes "0 \<le> px" "px < width (fst s)"
    and "triangle_depth (width (fst s)) (height (fst s)) q0 q1 q2 px py = Some z"
  shows "pixel_view (draw_triangle_flat q0 q1 q2 br col s) px py =
           (if z < fst (pixel_view s px py) then (z, on_display px py \<and> mono_pixel px py br)
            else pixel_view s px py)"
proof -
  from triangle_depth_Some [OF assms(3)] obtain f where
    f: "fragments_at px py (triangle_fragments (width (fst s)) (height (fst s)) q0 q1 q2) = [f]"
    and z: "snd (snd f) = z"
    by blast
  show ?thesis
    unfolding draw_triangle_flat_fold
    by (simp add: pixel_view_fold [OF assms(1,2) triangle_fragments_columns] f view_step_def z)
qed

lemma draw_triangle_flat_dims:
  "width (fst (draw_triangle_flat q0 q1 q2 br col s)) = width (fst s)"
  "height (fst (draw_triangle_flat q0 q1 q2 br col s)) = height (fst s)"
  by (simp_all add: draw_triangle_flat_fold fold_fragment_dims)

lemma depth_test_pixel:
  assumes "0 \<le> px" "px < width (fst s)"
    and a: "triangle_depth (width (fst s)) (height (fst s)) a0 a1 a2 px py = Some za"
    and b: "triangle_depth (width (fst s)) (height (fst s)) b0 b1 b2 px py = Some zb"
    and "za < zb"
  shows "pixel_view (draw_triangle_flat b0 b1 b2 brb colb
                      (draw_triangle_flat a0 a1 a2 bra cola s)) px py =
           (if za < fst (pixel_view s px py) then (za, on_display px py \<and> mono_pixel px py bra)
            else pixel_view s px py)"
    and "pixel_view (draw_triangle_flat a0 a1 a2 bra cola
                      (draw_triangle_flat b0 b1 b2 brb colb s)) px py =
           (if za < fst (pixel_view s px py) then (za, on_display px py \<and> mono_pixel px py bra)
            else pixel_view s px py)"
proof -
  let ?sa = "draw_triangle_flat a0 a1 a2 bra cola s"
  let ?sb = "draw_triangle_flat b0 b1 b2 brb colb s"
  have va: "pixel_view ?sa px py =
           (if za < fst (pixel_view s px py) then (za, on_display px py \<and> mono_pixel px py bra)
            else pixel_view s px py)"
    by (rule triangle_pixel_view [OF assms(1,2) a])
  have vb: "pixel_view ?sb px py =
           (if zb < fst (pixel_view s px py) then (zb, on_display px py \<and> mono_pixel px py brb)
            else pixel_view s px py)"
    by (rule triangle_pixel_view [OF assms(1,2) b])
  have vab: "pixel_view (draw_triangle_flat b0 b1 b2 brb colb ?sa) px py =
           (if zb < fst (pixel_view ?sa px py) then (zb, on_display px py \<and> mono_pixel px py brb)
            else pixel_view ?sa px py)"
    by (rule triangle_pixel_view) (simp_all add: draw_triangle_flat_dims assms)
  have vba: "pixel_view (draw_triangle_flat a0 a1 a2 bra cola ?sb) px py =
           (if za < fst (pixel_view ?sb px py) then (za, on_display px py \<and> mono_pixel px py bra)
            else pixel_view ?sb px py)"
    by (rule triangle_pixel_view) (simp_all add: draw_triangle_flat_dims assms)
  show "pixel_view (draw_triangle_flat b0 b1 b2 brb colb ?sa) px py =
           (if za < fst (pixel_view s px py) then (za, on_display px py \<and> mono_pixel px py bra)
            else pixel_view s px py)"
    unfolding vab va using \<open>za < zb\<close> by auto
  show "pixel_view (draw_triangle_flat a0 a1 a2 bra cola ?sb) px py =
           (if za < fst (pixel_view s px py) then (za, on_display px py \<and> mono_pixel px py bra)
            else pixel_view s px py)"
    unfolding vba vb using \<open>za < zb\<close> by auto
qed

lemma fold_fill: "fold (\<lambda>i zb. zb(i := c)) xs zb i = (if i \<in> set xs then c else zb i)"
  by (induction xs arbitrary: zb) auto

lemma clear_dims:
  "width (fst (render3d_clear s)) = width (fst s)"
  "height (fst (render3d_clear s)) = height (fst s)"
  by (simp_all add: render3d_clear_def Let_def)

lemma pixel_view_clear:
  assumes "0 \<le> px" "px < width (fst s)" "0 \<le> py" "py < height (fst s)"
  shows "pixel_view (render3d_clear s) px py = (CLEAR_DEPTH, False)"
proof -
  have "py * width (fst s) \<le> (height (fst s) - 1) * width (fst s)"
    using assms by (intro mult_right_mono) simp_all
  then have hi: "py * width (fst s) + px \<le> width (fst s) * height (fst s) - 1"
    using assms by (simp add: algebra_simps)
  have lo: "0 \<le> py * width (fst s) + px"
    using assms by simp
  have "\<not> ssd1306_get_pixel px py ssd1306_clear"
    by (simp add: get_pixel_bit ssd1306_clear_def)
  with lo hi show ?thesis
    by (simp add: pixel_view_def render3d_clear_def Let_def fold_fill)
qed

text \<open>
  Claim C5, as the code has it. After a clear, at a pixel of the context that two
  triangles both cover with different interpolated depths, drawing them in either order
  leaves the same stored depth and the same displayed pixel. If the smaller depth is
  below the clear value 1000, the stored depth is the smaller one and the displayed pixel
  is the nearer triangle's pixel value (on the part of the context that lies on the
  display); otherwise neither triangle is written.
\<close>

theorem depth_test_nearer_wins:
  assumes "0 \<le> px" "px < width (fst s)" "0 \<le> py" "py < height (fst s)"
    and "triangle_depth (width (fst s)) (height (fst s)) a0 a1 a2 px py = Some za"
    and "triangle_depth (width (fst s)) (height (fst s)) b0 b1 b2 px py = Some zb"
    and "za < zb"
  shows "pixel_view (draw_triangle_flat b0 b1 b2 brb colb
                      (draw_triangle_flat a0 a1 a2 bra cola (render3d_clear s))) px py =
         pixel_view (draw_triangle_flat a0 a1 a2 bra cola
                      (draw_triangle_flat b0 b1 b2 brb colb (render3d_clear s))) px py \<and>
         pixel_view (draw_triangle_flat b0 b1 b2 brb colb
                      (draw_triangle_flat a0 a1 a2 bra cola (render3d_clear s))) px py =
           (if za < CLEAR_DEPTH then (za, on_display px py \<and> mono_pixel px py bra)
            else (CLEAR_DEPTH, False))"
proof -
  let ?s0 = "render3d_clear s"
  have c: "pixel_view ?s0 px py = (CLEAR_DEPTH, False)"
    by (rule pixel_view_clear [OF assms(1-4)])
  have d: "0 \<le> px" "px < width (fst ?s0)"
    "triangle_depth (width (fst ?s0)) (height (fst ?s0)) a0 a1 a2 px py = Some za"
    "triangle_depth (width (fst ?s0)) (height (fst ?s0)) b0 b1 b2 px py = Some zb"
    using assms by (simp_all add: clear_dims)
  note ab = depth_test_pixel(1) [OF d \<open>za < zb\<close>, where brb = brb and colb = colb
      and bra = bra and cola = cola]
  note ba = depth_test_pixel(2) [OF d \<open>za < zb\<close>, where brb = brb and colb = colb
      and bra = bra and cola = cola]
  show ?thesis
    unfolding ab ba by (simp add: c)
qed

lemma depth_small_triangle:
  "triangle_depth 2 2 (vec3_create 1 1 z) (vec3_create 2 1 z) (vec3_create 1 0 z) 1 0 = Some z"
  by (simp add: triangle_depth_def triangle_fragments_def sort_by_y_def vec3_create_def Let_def
        triangle_loop_fragments.simps row_fragments_def scanline_fragments_def clipped_span_def
        c_int_of_float_def scan_fragments.simps fragments_at_def)

lemma unit_ctx_dims:
  "width (fst (unit_ctx, fb)) = 2" "height (fst (unit_ctx, fb)) = 2"
  "width unit_ctx = 2" "height unit_ctx = 2"
  by (simp_all add: unit_ctx_def lit_ctx_fields)

lemma mono_pixel_full: "mono_pixel px py 1"
  by (simp add: mono_pixel_def SHADING_MODE_def dither_pixel_def)

theorem depth_test_nearer_wins_witness:
  "triangle_depth 2 2 (vec3_create 1 1 0) (vec3_create 2 1 0) (vec3_create 1 0 0) 1 0 = Some 0 \<and>
   triangle_depth 2 2 (vec3_create 1 1 (1 / 2)) (vec3_create 2 1 (1 / 2)) (vec3_create 1 0 (1 / 2))
     1 0 = Some (1 / 2) \<and>
   pixel_view (draw_triangle_flat (vec3_create 1 1 (1 / 2)) (vec3_create 2 1 (1 / 2))
                 (vec3_create 1 0 (1 / 2)) 0 white
                (draw_triangle_flat (vec3_create 1 1 0) (vec3_create 2 1 0) (vec3_create 1 0 0)
                   1 white (render3d_clear (unit_ctx, ssd1306_clear)))) 1 0 = (0, True) \<and>
   pixel_view (draw_triangle_flat (vec3_create 1 1 0) (vec3_create 2 1 0) (vec3_create 1 0 0)
                 1 white
                (draw_triangle_flat (vec3_create 1 1 (1 / 2)) (vec3_create 2 1 (1 / 2))
                   (vec3_create 1 0 (1 / 2)) 0 white
                   (render3d_clear (unit_ctx, ssd1306_clear)))) 1 0 = (0, True)"
proof -
  have a: "triangle_depth (width (fst (unit_ctx, ssd1306_clear))) (height (fst (unit_ctx, ssd1306_clear)))
             (vec3_create 1 1 0) (vec3_create 2 1 0) (vec3_create 1 0 0) 1 0 = Some 0"
    unfolding unit_ctx_dims(1,2) by (rule depth_small_triangle)
  have b: "triangle_depth (width (fst (unit_ctx, ssd1306_clear))) (height (fst (unit_ctx, ssd1306_clear)))
             (vec3_create 1 1 (1 / 2)) (vec3_create 2 1 (1 / 2)) (vec3_create 1 0 (1 / 2)) 1 0 =
           Some (1 / 2)"
    unfolding unit_ctx_dims(1,2) by (rule depth_small_triangle)
  have d: "(0::int) \<le> 1" "1 < width (fst (unit_ctx, ssd1306_clear))" "(0::int) \<le> 0"
    "0 < height (fst (unit_ctx, ssd1306_clear))" "(0::real) < 1 / 2"
    by (simp_all add: unit_ctx_dims)
  have v: "on_display 1 0 \<and> mono_pixel 1 0 1"
    by (simp add: on_display_def SSD1306_WIDTH_def SSD1306_HEIGHT_def mono_pixel_full)
  from depth_test_nearer_wins [OF d(1-4) a b d(5), where bra = 1 and brb = 0 and cola = white
      and colb = white] v a b
  show ?thesis
    by (auto simp add: unit_ctx_dims CLEAR_DEPTH_def)
qed

text \<open>
  The claim as the specification states it (the nearer triangle's pixel value is the one
  visible for any two triangles) fails when the nearer depth is not below the clear value:
  with depths 2000 and 3000 both fragments fail the depth test and the pixel stays off,
  although the nearer triangle's pixel value is on.
\<close>

theorem depth_test_counterexample:
  "triangle_depth 2 2 (vec3_create 1 1 2000) (vec3_create 2 1 2000) (vec3_create 1 0 2000) 1 0 =
     Some 2000 \<and>
   triangle_depth 2 2 (vec3_create 1 1 3000) (vec3_create 2 1 3000) (vec3_create 1 0 3000) 1 0 =
     Some 3000 \<and>
   on_display 1 0 \<and> mono_pixel 1 0 1 \<and>
   \<not> ssd1306_get_pixel 1 0
       (snd (draw_triangle_flat (vec3_create 1 1 3000) (vec3_create 2 1 3000)
               (vec3_create 1 0 3000) 1 white
              (draw_triangle_flat (vec3_create 1 1 2000) (vec3_create 2 1 2000)
                 (vec3_create 1 0 2000) 1 white (render3d_clear (unit_ctx, ssd1306_clear)))))"
proof -
  let ?s0 = "render3d_clear (unit_ctx, ssd1306_clear)"
  have dims: "width (fst ?s0) = 2" "height (fst ?s0) = 2"
    by (simp_all add: clear_dims unit_ctx_dims)
  have c: "pixel_view ?s0 1 0 = (CLEAR_DEPTH, False)"
    by (rule pixel_view_clear) (simp_all add: unit_ctx_dims)
  have "pixel_view (draw_triangle_flat (vec3_create 1 1 3000) (vec3_create 2 1 3000)
               (vec3_create 1 0 3000) 1 white
              (draw_triangle_flat (vec3_create 1 1 2000) (vec3_create 2 1 2000)
                 (vec3_create 1 0 2000) 1 white ?s0)) 1 0 =
        (if 2000 < fst (pixel_view ?s0 1 0) then (2000, on_display 1 0 \<and> mono_pixel 1 0 1)
         else pixel_view ?s0 1 0)"
    by (rule depth_test_pixel(1) [where za = 2000 and zb = 3000])
       (simp_all add: dims depth_small_triangle)
  then have "\<not> ssd1306_get_pixel 1 0
       (snd (draw_triangle_flat (vec3_create 1 1 3000) (vec3_create 2 1 3000)
               (vec3_create 1 0 3000) 1 white
              (draw_triangle_flat (vec3_create 1 1 2000) (vec3_create 2 1 2000)
                 (vec3_create 1 0 2000) 1 white ?s0)))"
    by (simp add: c CLEAR_DEPTH_def) (simp add: pixel_view_def)
  then show ?thesis
    by (simp add: depth_small_triangle mono_pixel_full on_display_def SSD1306_WIDTH_def
          SSD1306_HEIGHT_def)
qed

subsection \<open>Termination of the Bresenham loop\<close>

text \<open>A 32-bit word holds every integer of the signed range.\<close>

lemma sint_i32:
  assumes "- 2147483648 \<le> k" "k < 2147483648"
  shows "sint (word_of_int k :: i32) = k"
  using assms by (simp add: sint_sbintrunc' signed_take_bit_int_eq_self)

lemma i32_eq_iff:
  assumes "- 2147483648 \<le> j" "j < 2147483648" "- 2147483648 \<le> k" "k < 2147483648"
  shows "(word_of_int j :: i32) = word_of_int k \<longleftrightarrow> j = k"
proof
  assume "(word_of_int j :: i32) = word_of_int k"
  then have "sint (word_of_int j :: i32) = sint (word_of_int k :: i32)" by simp
  then show "j = k" using assms by (simp only: sint_i32)
qed simp

lemma i32_of_sint: "(word_of_int (sint w) :: i32) = w"
  by simp

lemma sint_i32_range: "- 2147483648 \<le> sint (w :: i32)" "sint (w :: i32) < 2147483648"
  using sint_ge [of w] sint_lt [of w] by simp_all

lemma sint_i32_sub:
  assumes "- 2147483648 \<le> sint a - sint b" "sint a - sint b < 2147483648"
  shows "sint (a - b :: i32) = sint a - sint b"
proof -
  have "a - b = word_of_int (sint a) - word_of_int (sint b)" by simp
  also have "\<dots> = word_of_int (sint a - sint b)" by (rule wi_hom_sub)
  finally show ?thesis using assms by (simp only: sint_i32)
qed

lemma c_abs_sub:
  assumes "\<bar>sint a - sint b\<bar> < 2147483648"
  shows "c_abs (a - b) = word_of_int \<bar>sint a - sint b\<bar>"
proof -
  have s: "sint (a - b) = sint a - sint b"
    using assms by (intro sint_i32_sub) auto
  have w: "a - b = word_of_int (sint a - sint b)"
    using s i32_of_sint [of "a - b"] by simp
  show ?thesis
  proof (cases "sint a - sint b < 0")
    case True
    then have "c_abs (a - b) = - (a - b)" by (simp add: c_abs_def s)
    also have "\<dots> = - word_of_int (sint a - sint b)" using w by simp
    also have "\<dots> = word_of_int (- (sint a - sint b))" by (rule wi_hom_neg)
    finally show ?thesis using True by simp
  next
    case False
    then have "c_abs (a - b) = a - b" by (simp add: c_abs_def s)
    with w False show ?thesis by simp
  qed
qed

text \<open>
  The invariant: with \<open>a\<close> and \<open>b\<close> the remaining distances along x and y, the error term
  is \<open>dx - dy + a * dy - b * dx\<close>, and twice the error term lies between \<open>- 3 * dy\<close> and
  \<open>3 * dx\<close>. A step along x happens only while \<open>a\<close> is positive, a step along y only
  while \<open>b\<close> is positive, and every iteration short of the end makes at least one step.
  When \<open>3 * dx\<close> and \<open>3 * dy\<close> are below \<open>2^31\<close> no operation of the loop wraps around.
\<close>

lemma line_loop_terminates:
  fixes X1 Y1 X Y DX DY SX SY E a b :: int
  assumes "X1 - X = SX * a" "Y1 - Y = SY * b" "SX = 1 \<or> SX = - 1" "SY = 1 \<or> SY = - 1"
    and "0 \<le> a" "a \<le> DX" "0 \<le> b" "b \<le> DY"
    and "E = DX - DY + a * DY - b * DX"
    and "- 3 * DY \<le> 2 * E" "2 * E \<le> 3 * DX"
    and "3 * DX < 2147483648" "3 * DY < 2147483648"
    and "- 2147483648 \<le> X1" "X1 < 2147483648" "- 2147483648 \<le> Y1" "Y1 < 2147483648"
    and "- 2147483648 \<le> X" "X < 2147483648" "- 2147483648 \<le> Y" "Y < 2147483648"
    and "nat (a + b) < fuel"
  shows "\<exists>fb'. line_loop fuel (word_of_int X1) (word_of_int Y1) (word_of_int DX)
           (word_of_int DY) (word_of_int SX) (word_of_int SY) on
           (word_of_int X) (word_of_int Y) (word_of_int E) fb = Some fb'"
  using assms
proof (induction fuel arbitrary: X Y E a b fb)
  case 0
  then show ?case by simp
next
  case (Suc n)
  let ?x = "word_of_int X :: i32" and ?y = "word_of_int Y :: i32"
  let ?fb1 = "if sint ?x \<ge> 0 \<and> sint ?x < SSD1306_WIDTH \<and> sint ?y \<ge> 0 \<and> sint ?y < SSD1306_HEIGHT
              then ssd1306_set_pixel (sint ?x) (sint ?y) on fb else fb"
  have DX0: "0 \<le> DX" and DY0: "0 \<le> DY" using Suc.prems(5-8) by simp_all
  show ?case
  proof (cases "X = X1 \<and> Y = Y1")
    case True
    then show ?thesis by (simp add: Let_def)
  next
    case False
    have ne: "\<not> (?x = word_of_int X1 \<and> ?y = word_of_int Y1)"
      using False i32_eq_iff [OF Suc.prems(18,19,14,15)] i32_eq_iff [OF Suc.prems(20,21,16,17)]
      by simp
    have a0: "a = 0 \<longleftrightarrow> X = X1" using Suc.prems(1,3) by auto
    have b0: "b = 0 \<longleftrightarrow> Y = Y1" using Suc.prems(2,4) by auto
    from False a0 b0 have pos: "0 < a \<or> 0 < b" using Suc.prems(5,7) by auto
    define xstep where "xstep = (2 * E > - DY)"
    define ystep where "ystep = (2 * E < DX)"
    define a' where "a' = (if xstep then a - 1 else a)"
    define b' where "b' = (if ystep then b - 1 else b)"
    define X' where "X' = (if xstep then X + SX else X)"
    define Y' where "Y' = (if ystep then Y + SY else Y)"
    define E' where "E' = (if ystep then (if xstep then E - DY else E) + DX
                           else (if xstep then E - DY else E))"
    have e2: "2 * (word_of_int E :: i32) = word_of_int (2 * E)"
      by simp
    have s_e2: "sint (2 * (word_of_int E :: i32)) = 2 * E"
      unfolding e2 using Suc.prems(10-13) DX0 DY0 by (intro sint_i32) simp_all
    have s_ndy: "sint (- (word_of_int DY :: i32)) = - DY"
      unfolding wi_hom_neg using Suc.prems(13) DY0 by (intro sint_i32) simp_all
    have s_dx: "sint (word_of_int DX :: i32) = DX"
      using Suc.prems(12) DX0 by (intro sint_i32) simp_all
    have c1: "(sint (- (word_of_int DY :: i32)) < sint (2 * (word_of_int E :: i32))) = xstep"
      by (simp only: s_e2 s_ndy xstep_def)
    have c2: "(sint (2 * (word_of_int E :: i32)) < sint (word_of_int DX :: i32)) = ystep"
      by (simp only: s_e2 s_dx ystep_def)
    have wx: "(if xstep then (word_of_int X :: i32) + word_of_int SX else word_of_int X) =
              word_of_int X'"
      by (simp add: X'_def)
    have wy: "(if ystep then (word_of_int Y :: i32) + word_of_int SY else word_of_int Y) =
              word_of_int Y'"
      by (simp add: Y'_def)
    have we: "(if ystep then (if xstep then (word_of_int E :: i32) - word_of_int DY
                              else word_of_int E) + word_of_int DX
               else (if xstep then (word_of_int E :: i32) - word_of_int DY else word_of_int E)) =
              word_of_int E'"
      by (simp add: E'_def)
    have step: "line_loop (Suc n) (word_of_int X1) (word_of_int Y1) (word_of_int DX)
                  (word_of_int DY) (word_of_int SX) (word_of_int SY) on ?x ?y (word_of_int E) fb =
                line_loop n (word_of_int X1) (word_of_int Y1) (word_of_int DX)
                  (word_of_int DY) (word_of_int SX) (word_of_int SY) on
                  (word_of_int X') (word_of_int Y') (word_of_int E') ?fb1"
      by (simp only: line_loop.simps Let_def if_not_P [OF ne] c1 c2 wx wy we)
    have xs: "xstep \<Longrightarrow> 0 < a"
    proof (rule ccontr)
      assume xstep and "\<not> 0 < a"
      then have "a = 0" using Suc.prems(5) by simp
      with pos have "1 \<le> b" by simp
      then have "DX \<le> b * DX" using DX0 mult_right_mono [of 1 b DX] by simp
      moreover have "1 \<le> DY" using \<open>1 \<le> b\<close> Suc.prems(8) by simp
      ultimately show False using \<open>xstep\<close> \<open>a = 0\<close> Suc.prems(9) by (simp add: xstep_def)
    qed
    have ys: "ystep \<Longrightarrow> 0 < b"
    proof (rule ccontr)
      assume ystep and "\<not> 0 < b"
      then have "b = 0" using Suc.prems(7) by simp
      with pos have "1 \<le> a" by simp
      then have "DY \<le> a * DY" using DY0 mult_right_mono [of 1 a DY] by simp
      moreover have "1 \<le> DX" using \<open>1 \<le> a\<close> Suc.prems(6) by simp
      ultimately show False using \<open>ystep\<close> \<open>b = 0\<close> Suc.prems(9) by (simp add: ystep_def)
    qed
    have some: "xstep \<or> ystep"
    proof (rule ccontr)
      assume "\<not> (xstep \<or> ystep)"
      then have "2 * E \<le> - DY" "DX \<le> 2 * E" by (simp_all add: xstep_def ystep_def)
      then have "DX = 0" "DY = 0" using DX0 DY0 by simp_all
      with pos Suc.prems(6,8) show False by simp
    qed
    have 1: "X1 - X' = SX * a'"
      using Suc.prems(1,3) by (auto simp: X'_def a'_def algebra_simps)
    have 2: "Y1 - Y' = SY * b'"
      using Suc.prems(2,4) by (auto simp: Y'_def b'_def algebra_simps)
    have 3: "0 \<le> a'" "a' \<le> DX" "0 \<le> b'" "b' \<le> DY"
      using xs ys Suc.prems(5-8) by (auto simp: a'_def b'_def)
    have 4: "E' = DX - DY + a' * DY - b' * DX"
      using Suc.prems(9) by (auto simp: E'_def a'_def b'_def algebra_simps)
    have 5: "- 3 * DY \<le> 2 * E'" "2 * E' \<le> 3 * DX"
      using Suc.prems(10,11) DX0 DY0 some
      by (auto simp: E'_def xstep_def ystep_def)
    have 6: "- 2147483648 \<le> X'" "X' < 2147483648"
      using xs Suc.prems(1,3,14,15,18,19) by (auto simp: X'_def)
    have 7: "- 2147483648 \<le> Y'" "Y' < 2147483648"
      using ys Suc.prems(2,4,16,17,20,21) by (auto simp: Y'_def)
    have 8: "nat (a' + b') < n"
      using some xs ys Suc.prems(5,7,22) by (auto simp: a'_def b'_def)
    from Suc.IH [OF 1 2 Suc.prems(3,4) 3 4 5 Suc.prems(12-17) 6 7 8] step show ?thesis
      by simp
  qed
qed

text \<open>
  Claim C10. \<^verbatim>\<open>render3d_draw_line\<close> reaches the exit of its Bresenham loop within
  \<open>|x1 - x0| + |y1 - y0| + 1\<close> iterations (with at least that many iterations allowed,
  the function returns a frame buffer) for every pair of 32-bit endpoints whose
  coordinate differences satisfy \<open>3 * |x1 - x0| < 2^31\<close> and \<open>3 * |y1 - y0| < 2^31\<close>.
\<close>

theorem draw_line_terminates:
  assumes "3 * \<bar>sint x1 - sint x0\<bar> < 2147483648"
    and "3 * \<bar>sint y1 - sint y0\<bar> < 2147483648"
    and "nat (\<bar>sint x1 - sint x0\<bar> + \<bar>sint y1 - sint y0\<bar>) + 1 \<le> fuel"
  shows "\<exists>fb'. render3d_draw_line fuel x0 y0 x1 y1 on fb = Some fb'"
proof -
  define DX where "DX = \<bar>sint x1 - sint x0\<bar>"
  define DY where "DY = \<bar>sint y1 - sint y0\<bar>"
  define SX :: int where "SX = (if sint x0 < sint x1 then 1 else - 1)"
  define SY :: int where "SY = (if sint y0 < sint y1 then 1 else - 1)"
  have D0: "0 \<le> DX" "0 \<le> DY" by (simp_all add: DX_def DY_def)
  have dx: "c_abs (x1 - x0) = word_of_int DX"
    unfolding DX_def using assms(1) by (intro c_abs_sub) simp
  have dy: "c_abs (y1 - y0) = word_of_int DY"
    unfolding DY_def using assms(2) by (intro c_abs_sub) simp
  have sx: "(if sint x0 < sint x1 then 1 else - 1 :: i32) = word_of_int SX"
    by (simp add: SX_def)
  have sy: "(if sint y0 < sint y1 then 1 else - 1 :: i32) = word_of_int SY"
    by (simp add: SY_def)
  have err: "(word_of_int DX :: i32) - word_of_int DY = word_of_int (DX - DY)"
    by (rule wi_hom_sub)
  have "\<exists>fb'. line_loop fuel (word_of_int (sint x1)) (word_of_int (sint y1)) (word_of_int DX)
           (word_of_int DY) (word_of_int SX) (word_of_int SY) on
           (word_of_int (sint x0)) (word_of_int (sint y0)) (word_of_int (DX - DY)) fb = Some fb'"
  proof (rule line_loop_terminates [where a = DX and b = DY])
    show "sint x1 - sint x0 = SX * DX" by (auto simp: SX_def DX_def)
    show "sint y1 - sint y0 = SY * DY" by (auto simp: SY_def DY_def)
    show "DX - DY = DX - DY + DX * DY - DY * DX" by (simp add: mult.commute)
    show "nat (DX + DY) < fuel" using assms(3) by (simp add: DX_def DY_def)
    show "- 3 * DY \<le> 2 * (DX - DY)" using D0 by simp
    show "2 * (DX - DY) \<le> 3 * DX" using D0 by simp
    show "3 * DX < 2147483648" using assms(1) by (simp add: DX_def)
    show "3 * DY < 2147483648" using assms(2) by (simp add: DY_def)
  qed (simp_all add: SX_def SY_def DX_def DY_def sint_i32_range)
  then show ?thesis
    by (simp only: render3d_draw_line_def Let_def dx dy sx sy err i32_of_sint)
qed

theorem draw_line_terminates_witness:
  "3 * \<bar>sint (2 :: i32) - sint (0 :: i32)\<bar> < 2147483648 \<and>
   3 * \<bar>sint (1 :: i32) - sint (0 :: i32)\<bar> < 2147483648 \<and>
   nat (\<bar>sint (2 :: i32) - sint (0 :: i32)\<bar> + \<bar>sint (1 :: i32) - sint (0 :: i32)\<bar>) + 1 \<le> 4 \<and>
   (\<exists>fb'. render3d_draw_line 4 0 0 2 1 True ssd1306_clear = Some fb')"
  using draw_line_terminates [of 2 0 1 0 4 True ssd1306_clear] by simp

text \<open>
  Beyond that range the product \<^verbatim>\<open>2 * err\<close> wraps around. From \<open>(0, 0)\<close> to
  \<open>(2000000000, 0)\<close> the first iteration computes \<open>e2 = - 294967296\<close>, makes no step
  along x and moves \<open>y0\<close> to \<open>- 1\<close>; from then on \<open>y0\<close> only decreases, and it
  cannot come back to \<open>y1 = 0\<close> in fewer than \<open>2^32\<close> iterations.
\<close>

lemma line_loop_walks_away:
  assumes "0 < j" "j + fuel < 4294967296"
  shows "line_loop fuel x1 0 dx dy sx (- 1) on x (- of_nat j) err fb = None"
  using assms
proof (induction fuel arbitrary: j x err fb)
  case 0
  then show ?case by simp
next
  case (Suc n)
  have "(of_nat j :: i32) \<noteq> 0"
  proof
    assume "(of_nat j :: i32) = 0"
    then have "unat (of_nat j :: i32) = 0" by simp
    moreover have "unat (of_nat j :: i32) = j"
      using Suc.prems(2) by (simp add: unat_of_nat take_bit_nat_eq_self)
    ultimately show False using Suc.prems(1) by simp
  qed
  then have ne: "- (of_nat j :: i32) \<noteq> 0" by simp
  have next_y: "- (of_nat j :: i32) + - 1 = - of_nat (Suc j)" by simp
  have A: "line_loop n x1 0 dx dy sx (- 1) on x' (- of_nat (Suc j)) err' fb' = None"
    for x' err' fb'
    using Suc.prems by (intro Suc.IH) simp_all
  have B: "line_loop n x1 0 dx dy sx (- 1) on x' (- of_nat j) err' fb' = None"
    for x' err' fb'
    using Suc.prems by (intro Suc.IH) simp_all
  show ?case
    by (simp only: line_loop.simps Let_def ne next_y A B if_False simp_thms if_cancel split: if_splits)
qed

lemma wrapped_e2: "2 * (2000000000 :: i32) = - 294967296" "sint (2 * (2000000000 :: i32)) = - 294967296"
  by simp_all

lemma draw_line_first_step:
  "render3d_draw_line (Suc n) 0 0 2000000000 0 on fb =
   line_loop n 2000000000 0 2000000000 0 1 (- 1) on 0 (- of_nat 1) (- 294967296)
     (ssd1306_set_pixel 0 0 on fb)"
proof -
  have a: "render3d_draw_line (Suc n) 0 0 2000000000 0 on fb =
           line_loop n 2000000000 0 2000000000 0 1 (- 1) on 0 (- 1) 4000000000
             (ssd1306_set_pixel 0 0 on fb)"
    by (simp add: render3d_draw_line_def c_abs_def Let_def SSD1306_WIDTH_def SSD1306_HEIGHT_def)
  have b: "(4000000000 :: i32) = - 294967296" by simp
  show ?thesis by (simp only: a b of_nat_1)
qed

theorem draw_line_counterexample:
  "render3d_draw_line 2000000001 0 0 2000000000 0 True ssd1306_clear = None"
proof -
  have "render3d_draw_line (Suc 2000000000) 0 0 2000000000 0 True ssd1306_clear = None"
    unfolding draw_line_first_step by (rule line_loop_walks_away) simp_all
  then show ?thesis by simp
qed

subsection \<open>Near-plane rejection\<close>

lemma wireframe_face_unfold:
  "wireframe_face fuel mesh f s =
     (if vz (projected_vertex (fst s) mesh (face_v0 f)) < 0 \<or>
         vz (projected_vertex (fst s) mesh (face_v1 f)) < 0 \<or>
         vz (projected_vertex (fst s) mesh (face_v2 f)) < 0 then Some s
      else map_option (Pair (fst s))
             (wireframe_edges fuel (projected_vertex (fst s) mesh (face_v0 f))
                (projected_vertex (fst s) mesh (face_v1 f))
                (projected_vertex (fst s) mesh (face_v2 f)) (snd s)))"
  by (simp add: wireframe_face_def wireframe_edges_def projected_vertex_def Let_def
        split: option.splits)

lemma c_i32_of_float_small:
  "c_i32_of_float 0 = 0" "c_i32_of_float 1 = 1" "c_i32_of_float 2 = 2"
  by (simp_all add: c_i32_of_float_def c_int_of_float_def)

lemma draw_line_eval:
  "render3d_draw_line 4 1 1 2 1 True fb =
     Some (ssd1306_set_pixel 2 1 True (ssd1306_set_pixel 1 1 True fb))"
  "render3d_draw_line 4 2 1 1 0 True fb =
     Some (ssd1306_set_pixel 1 0 True (ssd1306_set_pixel 2 1 True fb))"
  "render3d_draw_line 4 1 0 1 1 True fb =
     Some (ssd1306_set_pixel 1 1 True (ssd1306_set_pixel 1 0 True fb))"
  by (simp_all add: render3d_draw_line_def c_abs_def Let_def eval_nat_numeral
        SSD1306_WIDTH_def SSD1306_HEIGHT_def)

lemma wireframe_edges_front:
  "wireframe_edges 4 (vec3_create 1 1 0) (vec3_create 2 1 0) (vec3_create 1 0 0) fb =
     Some (ssd1306_set_pixel 1 1 True (ssd1306_set_pixel 1 0 True
            (ssd1306_set_pixel 1 0 True (ssd1306_set_pixel 2 1 True
              (ssd1306_set_pixel 2 1 True (ssd1306_set_pixel 1 1 True fb))))))"
  by (simp add: wireframe_edges_def vec3_create_def c_i32_of_float_small draw_line_eval)

lemma projected_front:
  "projected_vertex unit_ctx front_mesh 0 = vec3_create 1 1 0"
  "projected_vertex unit_ctx front_mesh 1 = vec3_create 2 1 0"
  "projected_vertex unit_ctx front_mesh 2 = vec3_create 1 0 0"
  by (simp_all add: unit_ctx_def front_mesh_def projected_vertex_tri)
     (simp_all add: vec3_create_def)

lemma projected_behind:
  "vz (projected_vertex unit_ctx behind_mesh 0) = - 1"
  by (simp add: unit_ctx_def behind_mesh_def projected_vertex_tri)
     (simp add: vec3_create_def)

lemma wireframe_front:
  "\<exists>fb. wireframe_face 4 front_mesh tri_face (unit_ctx, ssd1306_clear) = Some (unit_ctx, fb) \<and>
        ssd1306_get_pixel 1 1 fb \<and> fb \<noteq> ssd1306_clear"
proof -
  have off: "\<not> ssd1306_get_pixel 1 1 ssd1306_clear"
    by (simp add: ssd1306_get_pixel_def ssd1306_clear_def Let_def)
  have on: "ssd1306_get_pixel 1 1 (ssd1306_set_pixel 1 1 True fb)" for fb
    by (simp add: get_set_pixel on_display_def SSD1306_WIDTH_def SSD1306_HEIGHT_def)
  from on off have "ssd1306_set_pixel 1 1 True fb \<noteq> ssd1306_clear" for fb
    by metis
  with on show ?thesis
    by (simp add: wireframe_face_unfold tri_face_fields projected_front wireframe_edges_front)
       (simp add: vec3_create_def)
qed

text \<open>
  Claim C2, as the code has it. The fill path and the wireframe path apply the same
  near-plane rule, on the same projected vertices, and the rule is a strict comparison.
  When a projected vertex has strictly negative depth the face is discarded whole: the
  fill path leaves the state as it is (the face is culled or rejected, never
  rasterized), and the wireframe path draws no line. When no projected vertex has
  negative depth (depth 0 included) neither path rejects the face: the fill path, unless
  it culls the face, rasterizes the whole triangle on its three projected vertices, and
  the wireframe path draws its three edges.
\<close>

theorem near_plane_rejection:
  "(let p0 = projected_vertex (fst s) mesh (face_v0 f);
        p1 = projected_vertex (fst s) mesh (face_v1 f);
        p2 = projected_vertex (fst s) mesh (face_v2 f);
        fate = mesh_face_fate (fst s) mesh f
    in (vz p0 < 0 \<or> vz p1 < 0 \<or> vz p2 < 0 \<longrightarrow>
          (fate = Culled \<or> fate = NearRejected) \<and>
          draw_mesh_face mesh f s = s \<and>
          wireframe_face fuel mesh f s = Some s) \<and>
       (\<not> (vz p0 < 0 \<or> vz p1 < 0 \<or> vz p2 < 0) \<longrightarrow>
          fate \<noteq> NearRejected \<and>
          (fate \<noteq> Culled \<longrightarrow>
             fate = Rasterized p0 p1 p2 (flat_brightness (fst s) mesh f) \<and>
             draw_mesh_face mesh f s =
               draw_triangle_flat p0 p1 p2 (flat_brightness (fst s) mesh f) (face_color f) s) \<and>
          wireframe_face fuel mesh f s =
            map_option (Pair (fst s)) (wireframe_edges fuel p0 p1 p2 (snd s))))"
  by (simp add: Let_def wireframe_face_unfold draw_mesh_face_def mesh_face_fate_unfold)

theorem near_plane_rejection_witness:
  "vz (projected_vertex unit_ctx behind_mesh (face_v0 tri_face)) < 0 \<and>
   mesh_face_fate unit_ctx behind_mesh tri_face = NearRejected \<and>
   draw_mesh_face behind_mesh tri_face (unit_ctx, ssd1306_clear) = (unit_ctx, ssd1306_clear) \<and>
   wireframe_face 4 behind_mesh tri_face (unit_ctx, ssd1306_clear) =
     Some (unit_ctx, ssd1306_clear) \<and>
   vz (projected_vertex unit_ctx front_mesh (face_v0 tri_face)) = 0 \<and>
   vz (projected_vertex unit_ctx front_mesh (face_v1 tri_face)) = 0 \<and>
   vz (projected_vertex unit_ctx front_mesh (face_v2 tri_face)) = 0 \<and>
   mesh_face_fate unit_ctx front_mesh tri_face =
     Rasterized (vec3_create 1 1 0) (vec3_create 2 1 0) (vec3_create 1 0 0) 1 \<and>
   draw_mesh_face front_mesh tri_face (unit_ctx, ssd1306_clear) =
     draw_triangle_flat (vec3_create 1 1 0) (vec3_create 2 1 0) (vec3_create 1 0 0) 1 white
       (unit_ctx, ssd1306_clear) \<and>
   wireframe_face 4 front_mesh tri_face (unit_ctx, ssd1306_clear) =
     Some (unit_ctx,
       ssd1306_set_pixel 1 1 True (ssd1306_set_pixel 1 0 True
         (ssd1306_set_pixel 1 0 True (ssd1306_set_pixel 2 1 True
           (ssd1306_set_pixel 2 1 True (ssd1306_set_pixel 1 1 True ssd1306_clear))))))"
proof -
  have b: "vz (projected_vertex unit_ctx behind_mesh (face_v0 tri_face)) < 0"
    by (simp add: tri_face_fields projected_behind)
  have z: "vz (projected_vertex unit_ctx front_mesh (face_v0 tri_face)) = 0"
    "vz (projected_vertex unit_ctx front_mesh (face_v1 tri_face)) = 0"
    "vz (projected_vertex unit_ctx front_mesh (face_v2 tri_face)) = 0"
    by (simp_all add: tri_face_fields projected_front) (simp_all add: vec3_create_def)
  have br: "flat_brightness unit_ctx front_mesh tri_face = 1"
    using fate_front by (simp add: mesh_face_fate_unfold split: if_splits)
  from near_plane_rejection [of "(unit_ctx, ssd1306_clear)" behind_mesh tri_face 4] b
  have 1: "draw_mesh_face behind_mesh tri_face (unit_ctx, ssd1306_clear) =
             (unit_ctx, ssd1306_clear) \<and>
           wireframe_face 4 behind_mesh tri_face (unit_ctx, ssd1306_clear) =
             Some (unit_ctx, ssd1306_clear)"
    by (simp add: Let_def)
  from near_plane_rejection [of "(unit_ctx, ssd1306_clear)" front_mesh tri_face 4] z
  have 2: "draw_mesh_face front_mesh tri_face (unit_ctx, ssd1306_clear) =
             draw_triangle_flat (vec3_create 1 1 0) (vec3_create 2 1 0) (vec3_create 1 0 0) 1
               white (unit_ctx, ssd1306_clear) \<and>
           wireframe_face 4 front_mesh tri_face (unit_ctx, ssd1306_clear) =
             Some (unit_ctx,
               ssd1306_set_pixel 1 1 True (ssd1306_set_pixel 1 0 True
                 (ssd1306_set_pixel 1 0 True (ssd1306_set_pixel 2 1 True
                   (ssd1306_set_pixel 2 1 True (ssd1306_set_pixel 1 1 True ssd1306_clear))))))"
    by (simp add: Let_def fate_front tri_face_fields projected_front br wireframe_edges_front)
  from b z 1 2 show ?thesis
    by (simp add: fate_behind fate_front)
qed

text \<open>
  The claim as the specification states it (discarded when a depth is at most 0) fails
  at depth exactly 0, in both paths: after a clear, the face of \<open>front_mesh\<close> projects to
  depth 0; the fill path rasterizes it, changing the depth buffer, and the wireframe
  path draws its edges, setting the pixel \<open>(1, 1)\<close>.
\<close>

theorem near_plane_counterexample:
  "vz (projected_vertex unit_ctx front_mesh (face_v0 tri_face)) \<le> 0 \<and>
   render3d_clear (unit_ctx, ssd1306_clear) = (unit_ctx, ssd1306_clear) \<and>
   draw_mesh_face front_mesh tri_face (unit_ctx, ssd1306_clear) \<noteq> (unit_ctx, ssd1306_clear) \<and>
   wireframe_face 4 front_mesh tri_face (unit_ctx, ssd1306_clear) \<noteq>
     Some (unit_ctx, ssd1306_clear) \<and>
   wireframe_face 4 front_mesh tri_face (unit_ctx, ssd1306_clear) \<noteq> None"
proof -
  have "vz (projected_vertex unit_ctx front_mesh (face_v0 tri_face)) \<le> 0"
    by (simp add: tri_face_fields projected_front) (simp add: vec3_create_def)
  moreover have "zbuffer (fst (unit_ctx, ssd1306_clear)) 1 = 1000"
    by (simp add: unit_ctx_def lit_ctx_def CLEAR_DEPTH_def)
  with draw_front_depth
  have "draw_mesh_face front_mesh tri_face (unit_ctx, ssd1306_clear) \<noteq> (unit_ctx, ssd1306_clear)"
    by auto
  moreover from wireframe_front
  have "wireframe_face 4 front_mesh tri_face (unit_ctx, ssd1306_clear) \<noteq>
          Some (unit_ctx, ssd1306_clear) \<and>
        wireframe_face 4 front_mesh tri_face (unit_ctx, ssd1306_clear) \<noteq> None"
    by auto
  ultimately show ?thesis
    by (simp add: unit_ctx_def clear_lit_ctx)
qed

end
